theory Spec2Isabelle
  imports Main "HOL-Library.Word"
begin

unbundle bit_operations_syntax

section \<open>The asset router: \<open>src/extract_data.js\<close> and its two helpers\<close>

subsection \<open>Files, errors, console, promises\<close>

text \<open>
  A Node \<open>Buffer\<close> is a list of bytes.  A JavaScript string is a list of characters;
  only the code units below 256 are represented.  The file system is a finite map from
  path strings to contents, a set of directories, and the set \<open>denied\<close> of paths on
  which a write or a directory creation fails.  A rejected promise or a thrown exception
  carries an \<open>error\<close>.
\<close>

type_synonym bytes = "8 word list"
type_synonym path = string

datatype error =
    ENOENT path
  | EACCES path
  | DecodeError
  | StringifyError
  | TypeError
  | SyntaxError

text \<open>One constructor for each \<open>console.log\<close> and \<open>console.error\<close> line of the router.\<close>

datatype console =
    Copied path path
  | InvalidSQLite path
  | SniffError path error
  | Progress nat
  | PickleNumber nat string
  | FoundStarmap path
  | PickleError string error
  | Converted path path
  | ConvertError path error

record world =
  files :: "path \<Rightarrow> bytes option"
  dirs :: "path set"
  denied :: "path set"
  console :: "console list"
  processedCount :: nat
  pickleCount :: nat

datatype outcome = Fulfilled | Rejected error

definition log :: "console \<Rightarrow> world \<Rightarrow> world" where
  "log c w = w\<lparr>console := console w @ [c]\<rparr>"

text \<open>\<open>await p; k\<close>: the continuation runs only when \<open>p\<close> is fulfilled.\<close>

definition await :: "world \<times> outcome \<Rightarrow> (world \<Rightarrow> world \<times> outcome) \<Rightarrow> world \<times> outcome" where
  "await r k = (case r of (w, Fulfilled) \<Rightarrow> k w | (w, Rejected e) \<Rightarrow> (w, Rejected e))"

definition readFile :: "path \<Rightarrow> world \<Rightarrow> error + bytes" where
  "readFile p w = (case files w p of None \<Rightarrow> Inl (ENOENT p) | Some c \<Rightarrow> Inr c)"

definition writeFile :: "path \<Rightarrow> bytes \<Rightarrow> world \<Rightarrow> world \<times> outcome" where
  "writeFile p c w =
     (if p \<in> denied w then (w, Rejected (EACCES p))
      else (w\<lparr>files := (files w)(p \<mapsto> c)\<rparr>, Fulfilled))"

definition copyFile :: "path \<Rightarrow> path \<Rightarrow> world \<Rightarrow> world \<times> outcome" where
  "copyFile src dst w =
     (case readFile src w of
        Inl e \<Rightarrow> (w, Rejected e)
      | Inr c \<Rightarrow> writeFile dst c w)"

definition existsSync :: "path \<Rightarrow> world \<Rightarrow> bool" where
  "existsSync p w = (p \<in> dirs w \<or> files w p \<noteq> None)"

definition mkdirSync :: "path \<Rightarrow> world \<Rightarrow> world \<times> outcome" where
  "mkdirSync p w =
     (if p \<in> denied w then (w, Rejected (EACCES p))
      else (w\<lparr>dirs := insert p (dirs w)\<rparr>, Fulfilled))"

text \<open>
  \<open>path.join\<close> without its normalisation.  The destination names built below from a
  directory and \<open>{filename}.{type}\<close> need none.  A source path or a raw directory that
  would be normalised is kept as the string it is joined from, which names the same file.
\<close>

definition path_join :: "path \<Rightarrow> path \<Rightarrow> path" where
  "path_join a b = a @ ''/'' @ b"

subsection \<open>\<open>isValidSQLite\<close> (\<open>utils/is_valid_sqlite.js\<close>)\<close>

definition sqliteHeader :: string where
  "sqliteHeader = ''SQLite format 3'' @ [CHR 0x00]"

text \<open>
  \<open>buf.toString('ascii')\<close>: Node unsets the highest bit of each byte and then decodes
  the byte as one character.
\<close>

definition toString_ascii :: "bytes \<Rightarrow> string" where
  "toString_ascii bs = map (\<lambda>b. char_of (unat (b AND 0x7F))) bs"

definition header_matches :: "bytes \<Rightarrow> bool" where
  "header_matches buffer =
     (if length buffer < 16 then False
      else toString_ascii (take 16 buffer) = sqliteHeader)"

definition isValidSQLite :: "path \<Rightarrow> world \<Rightarrow> world \<times> bool" where
  "isValidSQLite filePath w =
     (case readFile filePath w of
        Inl e \<Rightarrow> (log (SniffError filePath e) w, False)
      | Inr buffer \<Rightarrow> (w, header_matches buffer))"

text \<open>The sixteen bytes of the SQLite signature, as the source comment spells them.\<close>

definition signature_bytes :: bytes where
  "signature_bytes = map of_char sqliteHeader"

subsection \<open>\<open>convertPickleToJson\<close> (\<open>utils/pickle_to_json.js\<close>)\<close>

text \<open>
  The run's parameters: the two directories, the decoder of the \<open>pickleparser\<close>
  library and \<open>JSON.stringify\<close> (followed by the UTF-8 encoding of the write).
\<close>

record 'v env =
  RES_FILES_BASE_DIR :: path
  dirname :: path
  parse :: "bytes \<Rightarrow> error + 'v"
  stringify :: "'v \<Rightarrow> error + bytes"

text \<open>The body of the \<open>try\<close> block.\<close>

definition convert_body :: "'v env \<Rightarrow> path \<Rightarrow> path \<Rightarrow> world \<Rightarrow> world \<times> outcome" where
  "convert_body env pickleFilePath jsonFilePath w =
     (case readFile pickleFilePath w of
        Inl e \<Rightarrow> (w, Rejected e)
      | Inr pickleData \<Rightarrow>
          (case parse env pickleData of
             Inl e \<Rightarrow> (w, Rejected e)
           | Inr data \<Rightarrow>
               (case stringify env data of
                  Inl e \<Rightarrow> (w, Rejected e)
                | Inr jsonData \<Rightarrow>
                    await (writeFile jsonFilePath jsonData w)
                      (\<lambda>w. (log (Converted pickleFilePath jsonFilePath) w, Fulfilled)))))"

text \<open>The \<open>catch\<close> block logs and throws the error again.\<close>

definition convertPickleToJson :: "'v env \<Rightarrow> path \<Rightarrow> path \<Rightarrow> world \<Rightarrow> world \<times> outcome" where
  "convertPickleToJson env pickleFilePath jsonFilePath w =
     (case convert_body env pickleFilePath jsonFilePath w of
        (w', Rejected e) \<Rightarrow> (log (ConvertError pickleFilePath e) w', Rejected e)
      | (w', Fulfilled) \<Rightarrow> (w', Fulfilled))"

subsection \<open>The manifest pattern\<close>

text \<open>
  The pattern \<^verbatim>\<open>/^(.*?)([^\/]+)\.([^,]+),([^\/]+\/[^,]+)(.*)$/\<close> is a sequence of
  quantified character classes between the two anchors.  The matcher backtracks as the
  JavaScript engine does: each piece tries its repetition counts in priority order
  (longest first when greedy, shortest first when lazy) and the first count for which the
  rest of the pattern matches the rest of the line wins.
\<close>

datatype cls = Dot | Not char | Lit char

fun in_cls :: "cls \<Rightarrow> char \<Rightarrow> bool" where
  "in_cls Dot c = (c \<noteq> CHR 0x0A \<and> c \<noteq> CHR 0x0D)"
| "in_cls (Not x) c = (c \<noteq> x)"
| "in_cls (Lit x) c = (c = x)"

datatype piece = One cls | PlusGreedy cls | StarGreedy cls | StarLazy cls

definition run_length :: "cls \<Rightarrow> string \<Rightarrow> nat" where
  "run_length k s = length (takeWhile (in_cls k) s)"

fun counts :: "piece \<Rightarrow> string \<Rightarrow> nat list" where
  "counts (One k) s = (if 1 \<le> run_length k s then [1] else [])"
| "counts (PlusGreedy k) s = rev [1 ..< Suc (run_length k s)]"
| "counts (StarGreedy k) s = rev [0 ..< Suc (run_length k s)]"
| "counts (StarLazy k) s = [0 ..< Suc (run_length k s)]"

primrec first_some :: "('a \<Rightarrow> 'b option) \<Rightarrow> 'a list \<Rightarrow> 'b option" where
  "first_some f [] = None"
| "first_some f (x # xs) = (case f x of Some y \<Rightarrow> Some y | None \<Rightarrow> first_some f xs)"

text \<open>The result lists the substring each piece consumed.\<close>

primrec match_pieces :: "piece list \<Rightarrow> string \<Rightarrow> string list option" where
  "match_pieces [] s = (if s = [] then Some [] else None)"
| "match_pieces (p # ps) s =
     first_some (\<lambda>n. map_option (\<lambda>r. take n s # r) (match_pieces ps (drop n s))) (counts p s)"

definition regex :: "piece list" where
  "regex =
     [StarLazy Dot,
      PlusGreedy (Not CHR ''/''), One (Lit CHR ''.''),
      PlusGreedy (Not CHR '',''), One (Lit CHR '',''),
      PlusGreedy (Not CHR ''/''), One (Lit CHR ''/''), PlusGreedy (Not CHR '',''),
      StarGreedy Dot]"

text \<open>\<open>line.match(regex)\<close>, destructured into respath, filename, filetype, sourceRelativePath.\<close>

definition line_match :: "string \<Rightarrow> (string \<times> string \<times> string \<times> string) option" where
  "line_match line =
     (case match_pieces regex line of
        Some [g1, g2, d, g3, c, a, sl, b, g5] \<Rightarrow> Some (g1, g2, g3, a @ sl @ b)
      | _ \<Rightarrow> None)"

subsection \<open>The materialization routines\<close>

definition dataBaseDir :: "'v env \<Rightarrow> path" where
  "dataBaseDir env = path_join (dirname env) ''data''"

definition destRawDir :: "'v env \<Rightarrow> path" where
  "destRawDir env = path_join (dataBaseDir env) ''raw''"

definition destSqliteDir :: "'v env \<Rightarrow> path" where
  "destSqliteDir env = path_join (dataBaseDir env) ''sqlite''"

definition destSchemaDir :: "'v env \<Rightarrow> path" where
  "destSchemaDir env = path_join (dataBaseDir env) ''schema''"

definition destFsdBinaryDir :: "'v env \<Rightarrow> path" where
  "destFsdBinaryDir env = path_join (dataBaseDir env) ''fsdbinary/src''"

definition destStaticDir :: "'v env \<Rightarrow> path" where
  "destStaticDir env = path_join (dataBaseDir env) ''static''"

definition destPickleDir :: "'v env \<Rightarrow> path" where
  "destPickleDir env = path_join (dataBaseDir env) ''pickle''"

definition destJsonDir :: "'v env \<Rightarrow> path" where
  "destJsonDir env = path_join (dataBaseDir env) ''json''"

definition processStaticFile :: "'v env \<Rightarrow> string \<Rightarrow> path \<Rightarrow> world \<Rightarrow> world \<times> outcome" where
  "processStaticFile env filename sourceFilePath w =
     (let destSourceFile = path_join (destStaticDir env) (filename @ ''.static'') in
      await (copyFile sourceFilePath destSourceFile w) (\<lambda>w.
        let w = log (Copied sourceFilePath destSourceFile) w;
            (w, isValid) = isValidSQLite sourceFilePath w
        in if isValid then
             (let destSqliteFile = path_join (destSqliteDir env) (filename @ ''.sqlite'') in
              await (copyFile sourceFilePath destSqliteFile w) (\<lambda>w.
                (log (Copied sourceFilePath destSqliteFile) w, Fulfilled)))
           else (log (InvalidSQLite sourceFilePath) w, Fulfilled)))"

definition processSchemaFile :: "'v env \<Rightarrow> string \<Rightarrow> path \<Rightarrow> world \<Rightarrow> world \<times> outcome" where
  "processSchemaFile env filename sourceFilePath w =
     (let destSourceFile = path_join (destSchemaDir env) (filename @ ''.schema'') in
      await (copyFile sourceFilePath destSourceFile w) (\<lambda>w.
        (log (Copied sourceFilePath destSourceFile) w, Fulfilled)))"

definition processFsdBinaryFile :: "'v env \<Rightarrow> string \<Rightarrow> path \<Rightarrow> world \<Rightarrow> world \<times> outcome" where
  "processFsdBinaryFile env filename sourceFilePath w =
     (let destSourceFile = path_join (destFsdBinaryDir env) (filename @ ''.fsdbinary'') in
      await (copyFile sourceFilePath destSourceFile w) (\<lambda>w.
        (log (Copied sourceFilePath destSourceFile) w, Fulfilled)))"

text \<open>\<open>s.includes(sub)\<close>.\<close>

fun str_includes :: "string \<Rightarrow> string \<Rightarrow> bool" where
  "str_includes [] sub = (sub = [])"
| "str_includes (c # cs) sub = (take (length sub) (c # cs) = sub \<or> str_includes cs sub)"

definition pickle_body :: "'v env \<Rightarrow> string \<Rightarrow> path \<Rightarrow> world \<Rightarrow> world \<times> outcome" where
  "pickle_body env filename sourceFilePath w =
     (let destPickleFilePath = path_join (destPickleDir env) (filename @ ''.pickle'');
          destJsonFilePath = path_join (destJsonDir env) (filename @ ''.json'')
      in await (copyFile sourceFilePath destPickleFilePath w) (\<lambda>w.
           let w = log (Copied sourceFilePath destPickleFilePath) w in
           await (convertPickleToJson env destPickleFilePath destJsonFilePath w) (\<lambda>w.
             if str_includes filename ''starmapcache'' \<or> str_includes filename ''starmap''
             then (log (FoundStarmap destJsonFilePath) w, Fulfilled)
             else (w, Fulfilled))))"

definition processPickleFile :: "'v env \<Rightarrow> string \<Rightarrow> path \<Rightarrow> world \<Rightarrow> world \<times> outcome" where
  "processPickleFile env filename sourceFilePath w =
     (case pickle_body env filename sourceFilePath w of
        (w', Rejected e) \<Rightarrow> (log (PickleError filename e) w', Fulfilled)
      | (w', Fulfilled) \<Rightarrow> (w', Fulfilled))"

text \<open>\<open>s.replace(pat, '')\<close> with a string pattern: the first occurrence is removed.\<close>

fun remove_first :: "string \<Rightarrow> string \<Rightarrow> string" where
  "remove_first pat [] = []"
| "remove_first pat (c # cs) =
     (if take (length pat) (c # cs) = pat then drop (length pat) (c # cs)
      else c # remove_first pat cs)"

definition defaultCopyFile ::
    "'v env \<Rightarrow> string \<Rightarrow> string \<Rightarrow> path \<Rightarrow> string \<Rightarrow> world \<Rightarrow> world \<times> outcome" where
  "defaultCopyFile env filename filetype sourceFilePath respath w =
     (let dir = path_join (destRawDir env) respath in
      await (if \<not> existsSync dir w then mkdirSync dir w else (w, Fulfilled)) (\<lambda>w.
        let destFilePath = path_join dir (filename @ ''.'' @ filetype) in
        await (copyFile sourceFilePath destFilePath w) (\<lambda>w.
          (log (Copied sourceFilePath destFilePath) w, Fulfilled))))"

subsection \<open>The \<open>line\<close> handler\<close>

definition on_line :: "'v env \<Rightarrow> string \<Rightarrow> world \<Rightarrow> world \<times> outcome" where
  "on_line env line w =
     (case line_match line of
        None \<Rightarrow> (w, Fulfilled)
      | Some (respath, filename, filetype, sourceRelativePath) \<Rightarrow>
          let sourceFilePath = path_join (RES_FILES_BASE_DIR env) sourceRelativePath;
              w = w\<lparr>processedCount := processedCount w + 1\<rparr>;
              w = (if processedCount w mod 1000 = 0 then log (Progress (processedCount w)) w
                   else w)
          in if filetype = ''static'' then processStaticFile env filename sourceFilePath w
             else if filetype = ''schema'' then processSchemaFile env filename sourceFilePath w
             else if filetype = ''fsdbinary'' then processFsdBinaryFile env filename sourceFilePath w
             else if filetype = ''pickle'' then
               (let w = w\<lparr>pickleCount := pickleCount w + 1\<rparr>;
                    w = log (PickleNumber (pickleCount w) filename) w
                in processPickleFile env filename sourceFilePath w)
             else defaultCopyFile env filename filetype sourceFilePath
                    (remove_first ''res:'' respath) w)"

section \<open>The label resolver: \<open>src/utils/extract_system_labels.js\<close>\<close>

subsection \<open>JavaScript values\<close>

text \<open>
  The three catalogs are whatever \<open>JSON.parse\<close> returned, so the resolver works on
  untyped values.  A number is an exact integer or \<open>NaN\<close>: the model is exact for
  integers of magnitude below \<open>2^53\<close>, which covers object and message identifiers, and
  does not represent fractions, rounding or infinities.  An object is the list of its own
  properties in the engine's enumeration order.  \<open>Undefined\<close> is the result of reading an
  absent property; it never occurs inside a parsed document.
\<close>

datatype number = NaN | Num int

datatype jsval =
    Undefined
  | JNull
  | JBool bool
  | JNum number
  | JStr string
  | JArr "jsval list"
  | JObj "(string \<times> jsval) list"

fun truthy :: "jsval \<Rightarrow> bool" where
  "truthy Undefined = False"
| "truthy JNull = False"
| "truthy (JBool b) = b"
| "truthy (JNum NaN) = False"
| "truthy (JNum (Num n)) = (n \<noteq> 0)"
| "truthy (JStr s) = (s \<noteq> [])"
| "truthy (JArr xs) = True"
| "truthy (JObj kvs) = True"

definition bind :: "error + 'a \<Rightarrow> ('a \<Rightarrow> error + 'b) \<Rightarrow> error + 'b" where
  "bind m k = (case m of Inl e \<Rightarrow> Inl e | Inr x \<Rightarrow> k x)"

text \<open>\<open>xs.forEach(f)\<close> with a callback that may throw: the first exception ends the loop.\<close>

fun forEach :: "('a \<Rightarrow> 's \<Rightarrow> error + 's) \<Rightarrow> 'a list \<Rightarrow> 's \<Rightarrow> error + 's" where
  "forEach f [] s = Inr s"
| "forEach f (x # xs) s = bind (f x s) (forEach f xs)"

subsection \<open>Numbers and strings\<close>

definition is_digit :: "char \<Rightarrow> bool" where
  "is_digit c = (c \<in> set ''0123456789'')"

definition is_hex_digit :: "char \<Rightarrow> bool" where
  "is_hex_digit c = (c \<in> set ''0123456789abcdefABCDEF'')"

text \<open>The white space \<open>parseInt\<close> skips, among the characters below 256.\<close>

definition is_space :: "char \<Rightarrow> bool" where
  "is_space c = (c \<in> {CHR 0x09, CHR 0x0A, CHR 0x0B, CHR 0x0C, CHR 0x0D, CHR 0x20, CHR 0xA0})"

definition digit_val :: "char \<Rightarrow> nat" where
  "digit_val c =
     (if c \<in> set ''0123456789'' then of_char c - 48
      else if c \<in> set ''abcdef'' then of_char c - 87
      else of_char c - 55)"

definition radix_val :: "nat \<Rightarrow> string \<Rightarrow> nat" where
  "radix_val r ds = foldl (\<lambda>a c. r * a + digit_val c) 0 ds"

text \<open>\<open>parseInt(s)\<close> without a radix argument.\<close>

definition parseInt :: "string \<Rightarrow> number" where
  "parseInt s =
     (let s1 = dropWhile is_space s;
          neg = (take 1 s1 = ''-'');
          s2 = (if take 1 s1 = ''-'' \<or> take 1 s1 = ''+'' then drop 1 s1 else s1);
          hex = (take 2 s2 = ''0x'' \<or> take 2 s2 = ''0X'');
          s3 = (if hex then drop 2 s2 else s2);
          ds = (if hex then takeWhile is_hex_digit s3 else takeWhile is_digit s3)
      in if ds = [] then NaN
         else Num ((if neg then - 1 else 1) * int (radix_val (if hex then 16 else 10) ds)))"

fun show_nat :: "nat \<Rightarrow> string" where
  "show_nat n =
     (if n < 10 then [''0123456789'' ! n]
      else show_nat (n div 10) @ [''0123456789'' ! (n mod 10)])"

text \<open>The property key a number turns into.\<close>

fun ToString :: "number \<Rightarrow> string" where
  "ToString NaN = ''NaN''"
| "ToString (Num n) = (if n < 0 then ''-'' @ show_nat (nat (- n)) else show_nat (nat n))"

text \<open>A property key is an array index when it is the canonical decimal form of a natural number.\<close>

definition array_index :: "string \<Rightarrow> nat option" where
  "array_index k =
     (if k \<noteq> [] \<and> list_all is_digit k \<and> (k = ''0'' \<or> take 1 k \<noteq> ''0'')
      then Some (radix_val 10 k) else None)"

subsection \<open>Property access and enumeration\<close>

text \<open>
  \<open>v[k]\<close> and \<open>v.k\<close>: reading a property of \<open>null\<close> or \<open>undefined\<close> throws a
  \<open>TypeError\<close>; every other value answers with its own property or \<open>undefined\<close>.  No
  property name this program reads is inherited from a prototype.
\<close>

fun get :: "jsval \<Rightarrow> string \<Rightarrow> error + jsval" where
  "get Undefined k = Inl TypeError"
| "get JNull k = Inl TypeError"
| "get (JBool b) k = Inr Undefined"
| "get (JNum n) k = Inr Undefined"
| "get (JStr s) k =
     Inr (case array_index k of
            Some i \<Rightarrow> if i < length s then JStr [s ! i] else Undefined
          | None \<Rightarrow> if k = ''length'' then JNum (Num (int (length s))) else Undefined)"
| "get (JArr xs) k =
     Inr (case array_index k of
            Some i \<Rightarrow> if i < length xs then xs ! i else Undefined
          | None \<Rightarrow> if k = ''length'' then JNum (Num (int (length xs))) else Undefined)"
| "get (JObj kvs) k = Inr (case map_of kvs k of Some v \<Rightarrow> v | None \<Rightarrow> Undefined)"

text \<open>\<open>Object.entries(v)\<close> for a truthy \<open>v\<close>; \<open>Object.keys\<close> and \<open>Object.values\<close> are its projections.\<close>

fun entries :: "jsval \<Rightarrow> (string \<times> jsval) list" where
  "entries (JObj kvs) = kvs"
| "entries (JArr xs) = zip (map show_nat [0 ..< length xs]) xs"
| "entries (JStr s) = zip (map show_nat [0 ..< length s]) (map (\<lambda>c. JStr [c]) s)"
| "entries v = []"

definition keys :: "jsval \<Rightarrow> string list" where
  "keys v = map fst (entries v)"

definition vals :: "jsval \<Rightarrow> jsval list" where
  "vals v = map snd (entries v)"

subsection \<open>\<open>Set\<close> and \<open>Map\<close>\<close>

text \<open>
  Both keep insertion order.  Membership compares structurally, which is the engine's
  SameValueZero on numbers, strings, booleans and \<open>null\<close>; the resolver only ever asks for
  numbers.
\<close>

definition set_add :: "'a \<Rightarrow> 'a list \<Rightarrow> 'a list" where
  "set_add x s = (if x \<in> set s then s else s @ [x])"

fun map_set :: "'k \<Rightarrow> 'v \<Rightarrow> ('k \<times> 'v) list \<Rightarrow> ('k \<times> 'v) list" where
  "map_set k v [] = [(k, v)]"
| "map_set k v ((k', v') # m) = (if k' = k then (k, v) # m else (k', v') # map_set k v m)"

subsection \<open>The three object kinds\<close>

text \<open>
  The source repeats each step for solar systems, constellations and regions.  The model
  writes the step once, for a kind; \<open>full_path\<close> and \<open>label_prefix\<close> are the two string
  constants in which the three copies differ.
\<close>

datatype kind = System | Constellation | Region

fun full_path :: "kind \<Rightarrow> string" where
  "full_path System = ''Map/SolarSystems''"
| "full_path Constellation = ''Map/Constellations''"
| "full_path Region = ''Map/Regions''"

fun label_prefix :: "kind \<Rightarrow> string" where
  "label_prefix System = ''solar_system_''"
| "label_prefix Constellation = ''constellation_''"
| "label_prefix Region = ''region_''"

record idsets =
  allSystemIds :: "jsval list"
  allConstellationIds :: "jsval list"
  allRegionIds :: "jsval list"

record indexes =
  systemIdToMessageId :: "(number \<times> number) list"
  constellationIdToMessageId :: "(number \<times> number) list"
  regionIdToMessageId :: "(number \<times> number) list"

record labelmaps =
  systemLabels :: "(number \<times> jsval) list"
  constellationLabels :: "(number \<times> jsval) list"
  regionLabels :: "(number \<times> jsval) list"

fun ids_of :: "kind \<Rightarrow> idsets \<Rightarrow> jsval list" where
  "ids_of System s = allSystemIds s"
| "ids_of Constellation s = allConstellationIds s"
| "ids_of Region s = allRegionIds s"

fun add_id :: "kind \<Rightarrow> jsval \<Rightarrow> idsets \<Rightarrow> idsets" where
  "add_id System x s = s\<lparr>allSystemIds := set_add x (allSystemIds s)\<rparr>"
| "add_id Constellation x s = s\<lparr>allConstellationIds := set_add x (allConstellationIds s)\<rparr>"
| "add_id Region x s = s\<lparr>allRegionIds := set_add x (allRegionIds s)\<rparr>"

fun index_of :: "kind \<Rightarrow> indexes \<Rightarrow> (number \<times> number) list" where
  "index_of System ix = systemIdToMessageId ix"
| "index_of Constellation ix = constellationIdToMessageId ix"
| "index_of Region ix = regionIdToMessageId ix"

fun index_set :: "kind \<Rightarrow> number \<Rightarrow> number \<Rightarrow> indexes \<Rightarrow> indexes" where
  "index_set System i m ix = ix\<lparr>systemIdToMessageId := map_set i m (systemIdToMessageId ix)\<rparr>"
| "index_set Constellation i m ix =
     ix\<lparr>constellationIdToMessageId := map_set i m (constellationIdToMessageId ix)\<rparr>"
| "index_set Region i m ix = ix\<lparr>regionIdToMessageId := map_set i m (regionIdToMessageId ix)\<rparr>"

fun labels_of :: "kind \<Rightarrow> labelmaps \<Rightarrow> (number \<times> jsval) list" where
  "labels_of System r = systemLabels r"
| "labels_of Constellation r = constellationLabels r"
| "labels_of Region r = regionLabels r"

subsection \<open>Pass 1: the identifiers of the star-map catalog\<close>

text \<open>\<open>Object.keys(obj).forEach(id => set.add(parseInt(id)))\<close>.\<close>

definition add_keys :: "kind \<Rightarrow> jsval \<Rightarrow> idsets \<Rightarrow> idsets" where
  "add_keys k obj s = fold (\<lambda>id. add_id k (JNum (parseInt id))) (keys obj) s"

text \<open>
  \<open>if (owner.field) { owner.field.forEach(id => set.add(id)) }\<close>: a truthy value that
  is not an array has no \<open>forEach\<close>, and the call throws.
\<close>

definition add_listed :: "kind \<Rightarrow> string \<Rightarrow> jsval \<Rightarrow> idsets \<Rightarrow> error + idsets" where
  "add_listed k field owner s =
     bind (get owner field) (\<lambda>v.
       if truthy v then
         (case v of JArr xs \<Rightarrow> Inr (fold (add_id k) xs s) | _ \<Rightarrow> Inl TypeError)
       else Inr s)"

definition region_ids :: "jsval \<Rightarrow> idsets \<Rightarrow> error + idsets" where
  "region_ids region s =
     bind (add_listed System ''solarSystemIDs'' region s)
       (add_listed Constellation ''constellationIDs'' region)"

definition constellation_ids :: "jsval \<Rightarrow> idsets \<Rightarrow> error + idsets" where
  "constellation_ids constellation s = add_listed System ''solarSystemIDs'' constellation s"

definition extract_ids :: "jsval \<Rightarrow> error + idsets" where
  "extract_ids starMapCache =
     (let s = \<lparr>allSystemIds = [], allConstellationIds = [], allRegionIds = []\<rparr> in
      bind (get starMapCache ''regions'') (\<lambda>regions.
      bind (if truthy regions
            then forEach region_ids (vals regions) (add_keys Region regions s)
            else Inr s) (\<lambda>s.
      bind (get starMapCache ''constellations'') (\<lambda>constellations.
      bind (if truthy constellations
            then forEach constellation_ids (vals constellations)
                   (add_keys Constellation constellations s)
            else Inr s) (\<lambda>s.
      bind (get starMapCache ''solarSystems'') (\<lambda>solarSystems.
      Inr (if truthy solarSystems then add_keys System solarSystems s else s)))))))"

subsection \<open>Pass 2: from identifiers to message identifiers\<close>

text \<open>
  \<open>label.match(/prefix(\d+)/)\<close>: the leftmost position at which the prefix is followed
  by a digit; the capture is the longest run of digits there.
\<close>

fun label_match :: "string \<Rightarrow> string \<Rightarrow> string option" where
  "label_match pre [] = None"
| "label_match pre (c # cs) =
     (let ds = takeWhile is_digit (drop (length pre) (c # cs)) in
      if take (length pre) (c # cs) = pre \<and> ds \<noteq> [] then Some ds
      else label_match pre cs)"

text \<open>The body of one branch; a truthy label that is not a string has no \<open>match\<close>.\<close>

definition index_kind :: "kind \<Rightarrow> idsets \<Rightarrow> string \<Rightarrow> jsval \<Rightarrow> indexes \<Rightarrow> error + indexes" where
  "index_kind k ids messageId label ix =
     (case label of
        JStr s \<Rightarrow>
          (case label_match (label_prefix k) s of
             None \<Rightarrow> Inr ix
           | Some ds \<Rightarrow>
               let objectId = parseInt ds in
               if JNum objectId \<in> set (ids_of k ids)
               then Inr (index_set k objectId (parseInt messageId) ix)
               else Inr ix)
      | _ \<Rightarrow> Inl TypeError)"

definition index_entry :: "idsets \<Rightarrow> string \<times> jsval \<Rightarrow> indexes \<Rightarrow> error + indexes" where
  "index_entry ids me ix =
     (case me of (messageId, entry) \<Rightarrow>
        bind (get entry ''FullPath'') (\<lambda>fullPath.
        bind (get entry ''label'') (\<lambda>label.
          if fullPath = JStr ''Map/SolarSystems'' \<and> truthy label
            then index_kind System ids messageId label ix
          else if fullPath = JStr ''Map/Constellations'' \<and> truthy label
            then index_kind Constellation ids messageId label ix
          else if fullPath = JStr ''Map/Regions'' \<and> truthy label
            then index_kind Region ids messageId label ix
          else Inr ix)))"

definition build_index :: "jsval \<Rightarrow> idsets \<Rightarrow> error + indexes" where
  "build_index mainLocalization ids =
     (let ix = \<lparr>systemIdToMessageId = [], constellationIdToMessageId = [],
                regionIdToMessageId = []\<rparr> in
      bind (get mainLocalization ''labels'') (\<lambda>labels.
        if truthy labels then forEach (index_entry ids) (entries labels) ix else Inr ix))"

subsection \<open>Pass 3: from message identifiers to names\<close>

definition resolve_one ::
    "jsval \<Rightarrow> number \<times> number \<Rightarrow> (number \<times> jsval) list \<Rightarrow> error + (number \<times> jsval) list" where
  "resolve_one localizationData im labels =
     (case im of (objectId, messageId) \<Rightarrow>
        bind (get localizationData (ToString messageId)) (\<lambda>localizationEntry.
          if truthy localizationEntry then
            (case localizationEntry of
               JArr (name # rest) \<Rightarrow>
                 if truthy name \<and> name \<noteq> JNull then Inr (map_set objectId name labels)
                 else Inr labels
             | _ \<Rightarrow> Inr labels)
          else Inr labels))"

definition resolve_names :: "jsval \<Rightarrow> indexes \<Rightarrow> error + labelmaps" where
  "resolve_names localizationData ix =
     bind (forEach (resolve_one localizationData) (systemIdToMessageId ix) []) (\<lambda>s.
     bind (forEach (resolve_one localizationData) (constellationIdToMessageId ix) []) (\<lambda>c.
     bind (forEach (resolve_one localizationData) (regionIdToMessageId ix) []) (\<lambda>r.
       Inr \<lparr>systemLabels = s, constellationLabels = c, regionLabels = r\<rparr>)))"

text \<open>The three passes of \<open>extractStellarLabels\<close>, on the three parsed catalogs.\<close>

definition resolve :: "jsval \<Rightarrow> jsval \<Rightarrow> jsval \<Rightarrow> error + labelmaps" where
  "resolve starMapCache mainLocalization enUsLocalization =
     bind (extract_ids starMapCache) (\<lambda>ids.
     bind (build_index mainLocalization ids) (\<lambda>ix.
     bind (get enUsLocalization ''1'') (\<lambda>localizationData.
       resolve_names localizationData ix)))"

subsection \<open>The run: loading, logging, writing\<close>

text \<open>One constructor for each \<open>console.log\<close> and \<open>console.error\<close> line of the resolver.\<close>

datatype message =
    Loading path
  | LoadError path error
  | ExtractingIds
  | Found kind nat
  | BuildingMappings
  | FoundMappings kind nat
  | ExtractingNames
  | Extracted kind nat
  | Saved kind path
  | SavedCombined path
  | ExampleHeader kind
  | Example number jsval

record store =
  docs :: "path \<Rightarrow> bytes option"
  readonly :: "path set"
  out :: "message list"

text \<open>
  How a run ends: the function returns, \<open>process.exit(n)\<close> is called, or an exception
  escapes.
\<close>

datatype 'a status = Returned 'a | Exited nat | Uncaught error

text \<open>
  The run's parameters: the data directory, \<open>JSON.parse\<close> after the UTF-8 decoding of
  \<open>readFileSync\<close>, and \<open>JSON.stringify(_, null, 2)\<close> of the plain object built from one
  label map or from the three of them.
\<close>

record config =
  dataDir :: path
  JSON_parse :: "bytes \<Rightarrow> error + jsval"
  JSON_labels :: "(number \<times> jsval) list \<Rightarrow> bytes"
  JSON_combined :: "labelmaps \<Rightarrow> bytes"

definition say :: "message list \<Rightarrow> store \<Rightarrow> store" where
  "say ms w = w\<lparr>out := out w @ ms\<rparr>"

definition readFileSync :: "path \<Rightarrow> store \<Rightarrow> error + bytes" where
  "readFileSync p w = (case docs w p of None \<Rightarrow> Inl (ENOENT p) | Some c \<Rightarrow> Inr c)"

text \<open>\<open>fs.writeFileSync(p, c)\<close> followed by the rest of the function.\<close>

definition writeFileSync ::
    "path \<Rightarrow> bytes \<Rightarrow> store \<Rightarrow> (store \<Rightarrow> store \<times> 'a status) \<Rightarrow> store \<times> 'a status" where
  "writeFileSync p c w k =
     (if p \<in> readonly w then (w, Uncaught (EACCES p))
      else k (w\<lparr>docs := (docs w)(p \<mapsto> c)\<rparr>))"

text \<open>\<open>None\<close> stands for the call of \<open>process.exit(1)\<close> in the \<open>catch\<close> block.\<close>

definition loadJsonFile :: "config \<Rightarrow> path \<Rightarrow> store \<Rightarrow> store \<times> jsval option" where
  "loadJsonFile cfg filePath w =
     (let w = say [Loading filePath] w in
      case bind (readFileSync filePath w) (JSON_parse cfg) of
        Inl e \<Rightarrow> (say [LoadError filePath e] w, None)
      | Inr v \<Rightarrow> (w, Some v))"

definition examples :: "kind \<Rightarrow> labelmaps \<Rightarrow> message list" where
  "examples k r = ExampleHeader k # map (\<lambda>(i, n). Example i n) (take 5 (labels_of k r))"

text \<open>The function after the three catalogs are loaded.\<close>

definition resolve_and_write ::
    "config \<Rightarrow> jsval \<Rightarrow> jsval \<Rightarrow> jsval \<Rightarrow> store \<Rightarrow> store \<times> labelmaps status" where
  "resolve_and_write cfg starMapCache mainLocalization enUsLocalization w =
     (let w = say [ExtractingIds] w in
      (case extract_ids starMapCache of
         Inl e \<Rightarrow> (w, Uncaught e)
       | Inr ids \<Rightarrow>
      (let w = say [Found System (length (allSystemIds ids)),
                    Found Constellation (length (allConstellationIds ids)),
                    Found Region (length (allRegionIds ids)),
                    BuildingMappings] w in
      (case build_index mainLocalization ids of
         Inl e \<Rightarrow> (w, Uncaught e)
       | Inr ix \<Rightarrow>
      (let w = say [FoundMappings System (length (systemIdToMessageId ix)),
                    FoundMappings Constellation (length (constellationIdToMessageId ix)),
                    FoundMappings Region (length (regionIdToMessageId ix)),
                    ExtractingNames] w in
      (case bind (get enUsLocalization ''1'') (\<lambda>localizationData.
              resolve_names localizationData ix) of
         Inl e \<Rightarrow> (w, Uncaught e)
       | Inr r \<Rightarrow>
      (let w = say [Extracted System (length (systemLabels r)),
                    Extracted Constellation (length (constellationLabels r)),
                    Extracted Region (length (regionLabels r))] w;
           systemOutputPath = path_join (dataDir cfg) ''system_labels.json'';
           constellationOutputPath = path_join (dataDir cfg) ''constellation_labels.json'';
           regionOutputPath = path_join (dataDir cfg) ''region_labels.json'';
           combinedOutputPath = path_join (dataDir cfg) ''stellar_labels.json''
       in writeFileSync systemOutputPath (JSON_labels cfg (systemLabels r)) w (\<lambda>w.
          writeFileSync constellationOutputPath (JSON_labels cfg (constellationLabels r)) w (\<lambda>w.
          writeFileSync regionOutputPath (JSON_labels cfg (regionLabels r)) w (\<lambda>w.
          (let w = say [Saved System systemOutputPath,
                        Saved Constellation constellationOutputPath,
                        Saved Region regionOutputPath] w in
           writeFileSync combinedOutputPath (JSON_combined cfg r) w (\<lambda>w.
           (let w = say (SavedCombined combinedOutputPath #
                         examples System r @ examples Constellation r @ examples Region r) w
            in (w, Returned r))))))))))))))"

definition extractStellarLabels :: "config \<Rightarrow> store \<Rightarrow> store \<times> labelmaps status" where
  "extractStellarLabels cfg w =
     (case loadJsonFile cfg (path_join (dataDir cfg) ''starmapcache.json'') w of
        (w, None) \<Rightarrow> (w, Exited 1)
      | (w, Some starMapCache) \<Rightarrow>
     (case loadJsonFile cfg (path_join (dataDir cfg) ''localization_fsd_main.json'') w of
        (w, None) \<Rightarrow> (w, Exited 1)
      | (w, Some mainLocalization) \<Rightarrow>
     (case loadJsonFile cfg (path_join (dataDir cfg) ''localization_fsd_en-us.json'') w of
        (w, None) \<Rightarrow> (w, Exited 1)
      | (w, Some enUsLocalization) \<Rightarrow>
          resolve_and_write cfg starMapCache mainLocalization enUsLocalization w)))"

section \<open>The specification's notions\<close>

subsection \<open>Asset categories\<close>

text \<open>
  The specification's closed enumeration of categories, its selection of a category by
  exact match on the declared type, and its materializer, which runs the routine of the
  category.
\<close>

datatype category = Static | Schema | BinaryFormat | SerializedBlob | Other string

definition select_category :: "string \<Rightarrow> category" where
  "select_category filetype =
     (if filetype = ''static'' then Static
      else if filetype = ''schema'' then Schema
      else if filetype = ''fsdbinary'' then BinaryFormat
      else if filetype = ''pickle'' then SerializedBlob
      else Other filetype)"

fun materialize ::
    "'v env \<Rightarrow> category \<Rightarrow> string \<Rightarrow> string \<Rightarrow> path \<Rightarrow> world \<Rightarrow> world \<times> outcome" where
  "materialize env Static respath filename src w = processStaticFile env filename src w"
| "materialize env Schema respath filename src w = processSchemaFile env filename src w"
| "materialize env BinaryFormat respath filename src w = processFsdBinaryFile env filename src w"
| "materialize env SerializedBlob respath filename src w =
     processPickleFile env filename src
       (log (PickleNumber (pickleCount w + 1) filename) (w\<lparr>pickleCount := pickleCount w + 1\<rparr>))"
| "materialize env (Other rawType) respath filename src w =
     defaultCopyFile env filename rawType src (remove_first ''res:'' respath) w"

text \<open>The counter and the progress line that precede the dispatch.\<close>

definition count_entry :: "world \<Rightarrow> world" where
  "count_entry w =
     (if (processedCount w + 1) mod 1000 = 0
      then log (Progress (processedCount w + 1)) (w\<lparr>processedCount := processedCount w + 1\<rparr>)
      else w\<lparr>processedCount := processedCount w + 1\<rparr>)"

subsection \<open>The star-map catalog's identifiers\<close>

text \<open>The value of a property, \<open>undefined\<close> when there is none to read.\<close>

definition prop_of :: "jsval \<Rightarrow> string \<Rightarrow> jsval" where
  "prop_of v k = (case get v k of Inr x \<Rightarrow> x | Inl e \<Rightarrow> Undefined)"

text \<open>The identifiers an object lists under a field, and the identifiers that key an object.\<close>

definition listed :: "string \<Rightarrow> jsval \<Rightarrow> jsval set" where
  "listed field owner = (case prop_of owner field of JArr xs \<Rightarrow> set xs | _ \<Rightarrow> {})"

definition key_ids :: "jsval \<Rightarrow> jsval set" where
  "key_ids obj = (\<lambda>id. JNum (parseInt id)) ` set (keys obj)"

text \<open>
  The three unions of the specification: every identifier observed at any nesting level.
\<close>

definition spec_region_ids :: "jsval \<Rightarrow> jsval set" where
  "spec_region_ids cat = key_ids (prop_of cat ''regions'')"

definition spec_constellation_ids :: "jsval \<Rightarrow> jsval set" where
  "spec_constellation_ids cat =
     (\<Union>r \<in> set (vals (prop_of cat ''regions'')). listed ''constellationIDs'' r)
     \<union> key_ids (prop_of cat ''constellations'')"

definition spec_system_ids :: "jsval \<Rightarrow> jsval set" where
  "spec_system_ids cat =
     (\<Union>r \<in> set (vals (prop_of cat ''regions'')). listed ''solarSystemIDs'' r)
     \<union> (\<Union>c \<in> set (vals (prop_of cat ''constellations'')). listed ''solarSystemIDs'' c)
     \<union> key_ids (prop_of cat ''solarSystems'')"

subsection \<open>Catalogs of the documented shape\<close>

text \<open>
  The data model of the specification: the star-map catalog is an object whose regions and
  constellations are objects with lists of identifiers; every entry of the localization
  index is an object whose label, when present, is a string; the string-table document
  has an element at index 1.
\<close>

definition present :: "jsval \<Rightarrow> bool" where
  "present v = (v \<noteq> JNull \<and> v \<noteq> Undefined)"

definition list_or_absent :: "jsval \<Rightarrow> bool" where
  "list_or_absent v = (case v of JArr xs \<Rightarrow> True | _ \<Rightarrow> \<not> truthy v)"

definition string_or_absent :: "jsval \<Rightarrow> bool" where
  "string_or_absent v = (case v of JStr s \<Rightarrow> True | _ \<Rightarrow> \<not> truthy v)"

definition wf_region :: "jsval \<Rightarrow> bool" where
  "wf_region r =
     (present r \<and> list_or_absent (prop_of r ''solarSystemIDs'')
      \<and> list_or_absent (prop_of r ''constellationIDs''))"

definition wf_constellation :: "jsval \<Rightarrow> bool" where
  "wf_constellation c = (present c \<and> list_or_absent (prop_of c ''solarSystemIDs''))"

definition wf_starmap :: "jsval \<Rightarrow> bool" where
  "wf_starmap cat =
     (present cat \<and> list_all wf_region (vals (prop_of cat ''regions''))
      \<and> list_all wf_constellation (vals (prop_of cat ''constellations'')))"

definition wf_entry :: "jsval \<Rightarrow> bool" where
  "wf_entry e = (present e \<and> string_or_absent (prop_of e ''label''))"

definition wf_index :: "jsval \<Rightarrow> bool" where
  "wf_index main = (present main \<and> list_all wf_entry (vals (prop_of main ''labels'')))"

definition wf_strings :: "jsval \<Rightarrow> bool" where
  "wf_strings doc = (present doc \<and> present (prop_of doc ''1''))"

subsection \<open>Labels that are a prefix followed by a number\<close>

text \<open>
  The specification's reading of a label: the kind's prefix and then, to the end of the
  label, the decimal digits of the identifier.
\<close>

definition suffix_id :: "kind \<Rightarrow> string \<Rightarrow> number option" where
  "suffix_id k label =
     (let ds = drop (length (label_prefix k)) label in
      if take (length (label_prefix k)) label = label_prefix k \<and> ds \<noteq> [] \<and> list_all is_digit ds
      then Some (Num (int (radix_val 10 ds))) else None)"

text \<open>
  The specification's second link: some entry of the localization index has the kind's
  path tag and a label whose numeric suffix is the identifier.
\<close>

definition stated_index_link :: "kind \<Rightarrow> number \<Rightarrow> jsval \<Rightarrow> bool" where
  "stated_index_link k i main =
     list_ex (\<lambda>e. prop_of e ''FullPath'' = JStr (full_path k)
                \<and> (case prop_of e ''label'' of JStr s \<Rightarrow> suffix_id k s = Some i | _ \<Rightarrow> False))
       (vals (prop_of main ''labels''))"

subsection \<open>The index link as the resolver reads it\<close>

text \<open>
  An identifier and a message identifier are linked for a kind when the identifier is in
  the kind's set and some entry of the localization index has the kind's path tag, a string
  label in which the pattern finds the identifier, and the message identifier as its key.
\<close>

definition index_link :: "kind \<Rightarrow> idsets \<Rightarrow> (string \<times> jsval) list \<Rightarrow> number \<Rightarrow> number \<Rightarrow> bool" where
  "index_link k ids lbls i m \<longleftrightarrow>
     JNum i \<in> set (ids_of k ids)
     \<and> (\<exists>mk e s ds. (mk, e) \<in> set lbls
           \<and> get e ''FullPath'' = Inr (JStr (full_path k))
           \<and> get e ''label'' = Inr (JStr s)
           \<and> label_match (label_prefix k) s = Some ds
           \<and> i = parseInt ds \<and> m = parseInt mk)"

subsection \<open>Catalog files that load\<close>

text \<open>The three catalog files in the order they are loaded; a file loads when it is there and parses.\<close>

definition catalog_paths :: "config \<Rightarrow> path list" where
  "catalog_paths cfg =
     [path_join (dataDir cfg) ''starmapcache.json'',
      path_join (dataDir cfg) ''localization_fsd_main.json'',
      path_join (dataDir cfg) ''localization_fsd_en-us.json'']"

definition loadable :: "config \<Rightarrow> store \<Rightarrow> path \<Rightarrow> bool" where
  "loadable cfg w p =
     (case bind (readFileSync p w) (JSON_parse cfg) of Inr v \<Rightarrow> True | Inl e \<Rightarrow> False)"

section \<open>Concrete inputs\<close>

text \<open>A small run of the router: an empty data tree, and a decoder that rejects the empty blob.\<close>

definition w0 :: world where
  "w0 = \<lparr>files = Map.empty, dirs = {}, denied = {}, console = [],
          processedCount = 0, pickleCount = 0\<rparr>"

definition env0 :: "bytes env" where
  "env0 = \<lparr>RES_FILES_BASE_DIR = ''/res'', dirname = ''/app'',
            parse = (\<lambda>b. if b = [] then Inl DecodeError else Inr b),
            stringify = (\<lambda>v. Inr v)\<rparr>"

text \<open>The SQLite signature with the highest bit of its first byte set, and a file that starts with the signature.\<close>

definition masked_header :: bytes where
  "masked_header =
     [0xD3, 0x51, 0x4C, 0x69, 0x74, 0x65, 0x20, 0x66,
      0x6F, 0x72, 0x6D, 0x61, 0x74, 0x20, 0x33, 0x00]"

definition sqlite_file :: bytes where
  "sqlite_file = signature_bytes @ [0x00, 0x10]"

text \<open>
  A star-map catalog with identifiers at every nesting level, and the catalogs of the
  specification's scenario: one solar system, one localization entry for it, and string
  tables in which the name is present, empty, or shadowed at the top level.
\<close>

definition cat1 :: jsval where
  "cat1 = JObj
     [(''regions'', JObj
         [(''10'', JObj [(''solarSystemIDs'', JArr [JNum (Num 1), JNum (Num 2)]),
                         (''constellationIDs'', JArr [JNum (Num 5)])])]),
      (''constellations'', JObj
         [(''5'', JObj [(''solarSystemIDs'', JArr [JNum (Num 2), JNum (Num 3)])])]),
      (''solarSystems'', JObj [(''7'', JObj [])])]"

definition cat7 :: jsval where
  "cat7 = JObj [(''solarSystems'', JObj [(''7'', JObj [])])]"

definition index7 :: jsval where
  "index7 = JObj [(''labels'', JObj
     [(''500'', JObj [(''FullPath'', JStr ''Map/SolarSystems''),
                      (''label'', JStr ''solar_system_7'')])])]"

definition index7_tail :: jsval where
  "index7_tail = JObj [(''labels'', JObj
     [(''500'', JObj [(''FullPath'', JStr ''Map/SolarSystems''),
                      (''label'', JStr ''solar_system_7_2'')])])]"

definition table7 :: jsval where
  "table7 = JArr [JObj [], JObj [(''500'', JArr [JStr ''Jita''])]]"

definition table7_empty :: jsval where
  "table7_empty = JArr [JObj [], JObj [(''500'', JArr [JStr []])]]"

definition table7_top :: jsval where
  "table7_top = JObj [(''500'', JArr [JStr ''Amarr'']),
                      (''1'', JObj [(''500'', JArr [JStr ''Jita''])])]"

definition table_short :: jsval where
  "table_short = JArr [JObj []]"

definition jita :: labelmaps where
  "jita = \<lparr>systemLabels = [(Num 7, JStr ''Jita'')], constellationLabels = [],
            regionLabels = []\<rparr>"

text \<open>A data directory in which only the star-map catalog exists.\<close>

definition cfg0 :: config where
  "cfg0 = \<lparr>dataDir = ''/d'',
            JSON_parse = (\<lambda>b. if b = [] then Inl SyntaxError else Inr (JObj [])),
            JSON_labels = (\<lambda>m. []), JSON_combined = (\<lambda>r. [])\<rparr>"

definition store0 :: store where
  "store0 = \<lparr>docs = [''/d/starmapcache.json'' \<mapsto> [0x7B, 0x7D]], readonly = {}, out = []\<rparr>"

declare show_nat.simps [simp del]
declare ids_of.simps [simp del] add_id.simps [simp del]
declare index_of.simps [simp del] index_set.simps [simp del]
declare labels_of.simps [simp del]

section \<open>The format sniffer\<close>

lemma signature_bytes_eq:
  "signature_bytes =
     [0x53, 0x51, 0x4C, 0x69, 0x74, 0x65, 0x20, 0x66,
      0x6F, 0x72, 0x6D, 0x61, 0x74, 0x20, 0x33, 0x00]"
  by (simp add: signature_bytes_def sqliteHeader_def)

lemma toString_ascii_signature: "toString_ascii signature_bytes = sqliteHeader"
  by code_simp

lemma header_matches_signature:
  assumes "take 16 c = signature_bytes"
  shows "header_matches c"
proof -
  have "length (take 16 c) = 16" using assms by (simp add: signature_bytes_eq)
  then have "\<not> length c < 16" by simp
  then show ?thesis
    by (simp add: header_matches_def assms toString_ascii_signature)
qed

lemma header_matches_short: "length c < 16 \<Longrightarrow> \<not> header_matches c"
  by (simp add: header_matches_def)

lemma isValidSQLite_present:
  "files w p = Some c \<Longrightarrow> isValidSQLite p w = (w, header_matches c)"
  by (simp add: isValidSQLite_def readFile_def)

lemma isValidSQLite_missing:
  "files w p = None \<Longrightarrow> isValidSQLite p w = (log (SniffError p (ENOENT p)) w, False)"
  by (simp add: isValidSQLite_def readFile_def)

text \<open>
  C3.  The sniffer is claimed to answer true exactly when the first sixteen bytes of the
  file equal the signature.  It decodes the header with the \<open>ascii\<close> encoding, which drops
  the highest bit of every byte, before it compares: a file whose first byte is \<open>0xD3\<close>
  instead of \<open>0x53\<close> is accepted, although its first sixteen bytes are not the signature.
\<close>

theorem isValidSQLite_masks_high_bit:
  "isValidSQLite ''f'' (w0\<lparr>files := [''f'' \<mapsto> masked_header]\<rparr>)
     = (w0\<lparr>files := [''f'' \<mapsto> masked_header]\<rparr>, True)
   \<and> take 16 masked_header \<noteq> signature_bytes"
proof -
  have "header_matches masked_header" by code_simp
  moreover have "take 16 masked_header \<noteq> signature_bytes"
    by (simp add: masked_header_def signature_bytes_eq)
  ultimately show ?thesis
    by (simp add: isValidSQLite_def readFile_def w0_def)
qed

section \<open>The asset router\<close>

lemma copyFile_ok:
  "files w src = Some c \<Longrightarrow> dst \<notin> denied w \<Longrightarrow>
     copyFile src dst w = (w\<lparr>files := (files w)(dst \<mapsto> c)\<rparr>, Fulfilled)"
  by (simp add: copyFile_def readFile_def writeFile_def)

lemma copyFile_denied:
  "files w src = Some c \<Longrightarrow> dst \<in> denied w \<Longrightarrow> copyFile src dst w = (w, Rejected (EACCES dst))"
  by (simp add: copyFile_def readFile_def writeFile_def)

lemma copyFile_missing:
  "files w src = None \<Longrightarrow> copyFile src dst w = (w, Rejected (ENOENT src))"
  by (simp add: copyFile_def readFile_def)

lemma line_match_static: "line_match ''r/Foo.static,d/F'' = Some (''r/'', ''Foo'', ''static'', ''d/F'')"
  by code_simp

lemma line_match_schema: "line_match ''r/Foo.schema,d/F'' = Some (''r/'', ''Foo'', ''schema'', ''d/F'')"
  by code_simp

lemma line_match_none: "line_match ''hello world'' = None"
  by code_simp

text \<open>
  C2.  An error raised while one entry is materialized is claimed to be caught and logged
  in every category.  Only the routine for serialized blobs has a \<open>try\<close> block.  For a
  \<open>static\<close> entry whose source file is missing, the promise of the line handler is
  rejected with the error of the copy, and nothing is written to the console.
\<close>

theorem on_line_static_failure_escapes:
  "on_line env0 ''r/Foo.static,d/F'' w0
     = (w0\<lparr>processedCount := 1\<rparr>, Rejected (ENOENT ''/res/d/F''))
   \<and> console (fst (on_line env0 ''r/Foo.static,d/F'' w0)) = []"
proof -
  have "on_line env0 ''r/Foo.static,d/F'' w0
     = (w0\<lparr>processedCount := 1\<rparr>, Rejected (ENOENT ''/res/d/F''))"
    by (simp add: on_line_def line_match_static processStaticFile_def copyFile_def readFile_def
        await_def path_join_def env0_def w0_def Let_def)
  then show ?thesis by (simp add: w0_def)
qed

text \<open>
  C4.  A line that does not match the pattern leaves the whole state as it was, counter
  included.  For a line that matches, the counter goes up by one and the handler does what
  the materializer does for the one category selected from the extracted file type.
\<close>

theorem on_line_dispatch:
  "(line_match line = None \<longrightarrow> on_line env line w = (w, Fulfilled))
   \<and> (\<forall>respath filename filetype rel.
        line_match line = Some (respath, filename, filetype, rel) \<longrightarrow>
          on_line env line w =
            materialize env (select_category filetype) respath filename
              (path_join (RES_FILES_BASE_DIR env) rel) (count_entry w)
          \<and> processedCount (count_entry w) = processedCount w + 1)"
  by (simp add: on_line_def select_category_def count_entry_def log_def Let_def)

theorem on_line_dispatch_witness:
  "line_match ''hello world'' = None
   \<and> on_line env0 ''hello world'' w0 = (w0, Fulfilled)
   \<and> line_match ''r/Foo.schema,d/F'' = Some (''r/'', ''Foo'', ''schema'', ''d/F'')
   \<and> on_line env0 ''r/Foo.schema,d/F'' w0
       = materialize env0 Schema ''r/'' ''Foo'' (path_join (RES_FILES_BASE_DIR env0) ''d/F'')
           (count_entry w0)
   \<and> processedCount (count_entry w0) = processedCount w0 + 1"
  using on_line_dispatch [of "''hello world''" env0 w0]
    on_line_dispatch [of "''r/Foo.schema,d/F''" env0 w0]
  by (simp add: line_match_none line_match_schema select_category_def)

text \<open>
  C5.  When the first copy of a \<open>static\<close> entry succeeds, the copy under
  \<open>static/{filename}.static\<close> is there at the end whatever happens next.  When the
  sniffer matches, the source is copied a second time to \<open>sqlite/{filename}.sqlite\<close>; if
  that second copy fails the handler is rejected and the first copy stays.  When the
  sniffer does not match, the non-match is logged and nothing else changes.  A source
  whose first sixteen bytes are the signature makes the sniffer match.
\<close>

theorem processStaticFile_copies:
  assumes src: "files w src = Some c"
    and d1: "d1 = path_join (destStaticDir env) (filename @ ''.static'')"
    and d2: "d2 = path_join (destSqliteDir env) (filename @ ''.sqlite'')"
    and ok: "d1 \<notin> denied w"
  shows "files (fst (processStaticFile env filename src w)) d1 = Some c
    \<and> (header_matches c \<and> d2 \<notin> denied w \<longrightarrow>
         processStaticFile env filename src w =
           (log (Copied src d2)
              ((log (Copied src d1) (w\<lparr>files := (files w)(d1 \<mapsto> c)\<rparr>))
                 \<lparr>files := (files w)(d1 \<mapsto> c, d2 \<mapsto> c)\<rparr>), Fulfilled))
    \<and> (header_matches c \<and> d2 \<in> denied w \<longrightarrow>
         processStaticFile env filename src w =
           (log (Copied src d1) (w\<lparr>files := (files w)(d1 \<mapsto> c)\<rparr>), Rejected (EACCES d2)))
    \<and> (\<not> header_matches c \<longrightarrow>
         processStaticFile env filename src w =
           (log (InvalidSQLite src) (log (Copied src d1) (w\<lparr>files := (files w)(d1 \<mapsto> c)\<rparr>)),
            Fulfilled))
    \<and> (take 16 c = signature_bytes \<longrightarrow> header_matches c)"
proof -
  let ?w1 = "log (Copied src d1) (w\<lparr>files := (files w)(d1 \<mapsto> c)\<rparr>)"
  have c1: "copyFile src d1 w = (w\<lparr>files := (files w)(d1 \<mapsto> c)\<rparr>, Fulfilled)"
    using src ok by (rule copyFile_ok)
  have f1: "files ?w1 src = Some c" using src by (simp add: log_def)
  have v: "isValidSQLite src ?w1 = (?w1, header_matches c)"
    using f1 by (rule isValidSQLite_present)
  have den: "denied ?w1 = denied w" by (simp add: log_def)
  have unfold: "processStaticFile env filename src w =
      (if header_matches c
       then await (copyFile src d2 ?w1) (\<lambda>w. (log (Copied src d2) w, Fulfilled))
       else (log (InvalidSQLite src) ?w1, Fulfilled))"
    by (simp add: processStaticFile_def Let_def d1 [symmetric] d2 [symmetric] c1 await_def v)
  have A: "header_matches c \<and> d2 \<notin> denied w \<longrightarrow>
         processStaticFile env filename src w =
           (log (Copied src d2) (?w1\<lparr>files := (files w)(d1 \<mapsto> c, d2 \<mapsto> c)\<rparr>), Fulfilled)"
    using copyFile_ok [OF f1, of d2] by (simp add: unfold den await_def log_def)
  have B: "header_matches c \<and> d2 \<in> denied w \<longrightarrow>
         processStaticFile env filename src w = (?w1, Rejected (EACCES d2))"
    using copyFile_denied [OF f1, of d2] by (simp add: unfold den await_def)
  have C: "\<not> header_matches c \<longrightarrow>
         processStaticFile env filename src w = (log (InvalidSQLite src) ?w1, Fulfilled)"
    by (simp add: unfold)
  have D: "files (fst (processStaticFile env filename src w)) d1 = Some c"
  proof (cases "header_matches c")
    case False
    then show ?thesis using C by (simp add: log_def)
  next
    case True
    then show ?thesis
      using A B by (cases "d2 \<in> denied w") (simp_all add: log_def)
  qed
  show ?thesis using A B C D header_matches_signature by blast
qed

theorem processStaticFile_copies_witness:
  "files (w0\<lparr>files := [''/res/d/F'' \<mapsto> sqlite_file]\<rparr>) ''/res/d/F'' = Some sqlite_file
   \<and> take 16 sqlite_file = signature_bytes
   \<and> files (fst (processStaticFile env0 ''Foo'' ''/res/d/F''
                   (w0\<lparr>files := [''/res/d/F'' \<mapsto> sqlite_file]\<rparr>)))
        ''/app/data/static/Foo.static'' = Some sqlite_file
   \<and> files (fst (processStaticFile env0 ''Foo'' ''/res/d/F''
                   (w0\<lparr>files := [''/res/d/F'' \<mapsto> sqlite_file]\<rparr>)))
        ''/app/data/sqlite/Foo.sqlite'' = Some sqlite_file
   \<and> ''/app/data/sqlite/Foo.sqlite''
        \<in> denied (w0\<lparr>files := [''/res/d/F'' \<mapsto> sqlite_file],
                        denied := {''/app/data/sqlite/Foo.sqlite''}\<rparr>)
   \<and> snd (processStaticFile env0 ''Foo'' ''/res/d/F''
              (w0\<lparr>files := [''/res/d/F'' \<mapsto> sqlite_file],
                   denied := {''/app/data/sqlite/Foo.sqlite''}\<rparr>))
        = Rejected (EACCES ''/app/data/sqlite/Foo.sqlite'')
   \<and> files (fst (processStaticFile env0 ''Foo'' ''/res/d/F''
                   (w0\<lparr>files := [''/res/d/F'' \<mapsto> sqlite_file],
                        denied := {''/app/data/sqlite/Foo.sqlite''}\<rparr>)))
        ''/app/data/static/Foo.static'' = Some sqlite_file
   \<and> \<not> header_matches [0x01, 0x02]
   \<and> processStaticFile env0 ''Foo'' ''/res/d/F'' (w0\<lparr>files := [''/res/d/F'' \<mapsto> [0x01, 0x02]]\<rparr>)
        = (w0\<lparr>files := [''/res/d/F'' \<mapsto> [0x01, 0x02],
                          ''/app/data/static/Foo.static'' \<mapsto> [0x01, 0x02]],
                console := [Copied ''/res/d/F'' ''/app/data/static/Foo.static'',
                            InvalidSQLite ''/res/d/F'']\<rparr>, Fulfilled)"
proof -
  let ?w = "w0\<lparr>files := [''/res/d/F'' \<mapsto> sqlite_file]\<rparr>"
  let ?wd = "w0\<lparr>files := [''/res/d/F'' \<mapsto> sqlite_file],
                 denied := {''/app/data/sqlite/Foo.sqlite''}\<rparr>"
  let ?wn = "w0\<lparr>files := [''/res/d/F'' \<mapsto> [0x01, 0x02]]\<rparr>"
  have src: "files ?w ''/res/d/F'' = Some sqlite_file" by simp
  have srcd: "files ?wd ''/res/d/F'' = Some sqlite_file" by simp
  have srcn: "files ?wn ''/res/d/F'' = Some [0x01, 0x02]" by simp
  have d1: "''/app/data/static/Foo.static'' = path_join (destStaticDir env0) (''Foo'' @ ''.static'')"
    by (simp add: destStaticDir_def dataBaseDir_def path_join_def env0_def)
  have d2: "''/app/data/sqlite/Foo.sqlite'' = path_join (destSqliteDir env0) (''Foo'' @ ''.sqlite'')"
    by (simp add: destSqliteDir_def dataBaseDir_def path_join_def env0_def)
  have ok1: "''/app/data/static/Foo.static'' \<notin> denied ?w" by (simp add: w0_def)
  have ok2: "''/app/data/sqlite/Foo.sqlite'' \<notin> denied ?w" by (simp add: w0_def)
  have ok1d: "''/app/data/static/Foo.static'' \<notin> denied ?wd" by simp
  have no2d: "''/app/data/sqlite/Foo.sqlite'' \<in> denied ?wd" by simp
  have ok1n: "''/app/data/static/Foo.static'' \<notin> denied ?wn" by (simp add: w0_def)
  have sig: "take 16 sqlite_file = signature_bytes"
    by (simp add: sqlite_file_def signature_bytes_eq)
  have nm: "\<not> header_matches [0x01, 0x02]" by (simp add: header_matches_def)
  have A: "files (fst (processStaticFile env0 ''Foo'' ''/res/d/F'' ?w))
             ''/app/data/static/Foo.static'' = Some sqlite_file
         \<and> files (fst (processStaticFile env0 ''Foo'' ''/res/d/F'' ?w))
             ''/app/data/sqlite/Foo.sqlite'' = Some sqlite_file"
    using processStaticFile_copies [OF src d1 d2 ok1] ok2 sig by (simp add: log_def)
  have B: "snd (processStaticFile env0 ''Foo'' ''/res/d/F'' ?wd)
             = Rejected (EACCES ''/app/data/sqlite/Foo.sqlite'')
         \<and> files (fst (processStaticFile env0 ''Foo'' ''/res/d/F'' ?wd))
             ''/app/data/static/Foo.static'' = Some sqlite_file"
    using processStaticFile_copies [OF srcd d1 d2 ok1d] no2d sig by (simp add: log_def)
  have C: "processStaticFile env0 ''Foo'' ''/res/d/F'' ?wn
        = (w0\<lparr>files := [''/res/d/F'' \<mapsto> [0x01, 0x02],
                          ''/app/data/static/Foo.static'' \<mapsto> [0x01, 0x02]],
                console := [Copied ''/res/d/F'' ''/app/data/static/Foo.static'',
                            InvalidSQLite ''/res/d/F'']\<rparr>, Fulfilled)"
    using processStaticFile_copies [OF srcn d1 d2 ok1n] nm by (simp add: log_def w0_def)
  show ?thesis using src sig A no2d B nm C by blast
qed

lemma convert_surfaces:
  "convert_body env p j w = (w', Rejected e) \<Longrightarrow>
     convertPickleToJson env p j w = (log (ConvertError p e) w', Rejected e)"
  by (simp add: convertPickleToJson_def)

lemma processPickleFile_fulfilled: "snd (processPickleFile env filename src w) = Fulfilled"
  by (simp add: processPickleFile_def split: prod.splits outcome.splits)

lemma pickle_json_distinct:
  "path_join a (filename @ ''.pickle'') \<noteq> path_join b (filename @ ''.json'')"
proof
  assume "path_join a (filename @ ''.pickle'') = path_join b (filename @ ''.json'')"
  then have "last (path_join a (filename @ ''.pickle'')) = last (path_join b (filename @ ''.json''))"
    by simp
  then show False by (simp add: path_join_def)
qed

text \<open>
  C6.  When the copy of a serialized blob to \<open>pickle/{filename}.pickle\<close> succeeds, that
  copy is there at the end and the routine is never rejected.  The decoder reads the copy;
  when it and the serializer succeed and the write is permitted, the result is under
  \<open>json/{filename}.json\<close>.  When the decoder fails, \<open>convertPickleToJson\<close> logs and is
  rejected with the decoder's error, and \<open>processPickleFile\<close> logs the error with the
  file name and is fulfilled.
\<close>

theorem processPickleFile_decodes:
  assumes src: "files w src = Some c"
    and p: "p = path_join (destPickleDir env) (filename @ ''.pickle'')"
    and j: "j = path_join (destJsonDir env) (filename @ ''.json'')"
    and ok: "p \<notin> denied w"
  shows "snd (processPickleFile env filename src w) = Fulfilled
    \<and> files (fst (processPickleFile env filename src w)) p = Some c
    \<and> (\<forall>v js. parse env c = Inr v \<and> stringify env v = Inr js \<and> j \<notin> denied w \<longrightarrow>
         files (fst (processPickleFile env filename src w)) j = Some js)
    \<and> (\<forall>e. parse env c = Inl e \<longrightarrow>
         convertPickleToJson env p j (log (Copied src p) (w\<lparr>files := (files w)(p \<mapsto> c)\<rparr>))
           = (log (ConvertError p e) (log (Copied src p) (w\<lparr>files := (files w)(p \<mapsto> c)\<rparr>)),
              Rejected e)
         \<and> processPickleFile env filename src w
           = (log (PickleError filename e)
                (log (ConvertError p e) (log (Copied src p) (w\<lparr>files := (files w)(p \<mapsto> c)\<rparr>))),
              Fulfilled))"
proof -
  let ?w1 = "log (Copied src p) (w\<lparr>files := (files w)(p \<mapsto> c)\<rparr>)"
  have c1: "copyFile src p w = (w\<lparr>files := (files w)(p \<mapsto> c)\<rparr>, Fulfilled)"
    using src ok by (rule copyFile_ok)
  have rd: "readFile p ?w1 = Inr c" by (simp add: readFile_def log_def)
  have body: "pickle_body env filename src w =
      await (convertPickleToJson env p j ?w1) (\<lambda>w.
        if str_includes filename ''starmapcache'' \<or> str_includes filename ''starmap''
        then (log (FoundStarmap j) w, Fulfilled) else (w, Fulfilled))"
    by (simp add: pickle_body_def Let_def p [symmetric] j [symmetric] c1 await_def)
  have pj: "p \<noteq> j" unfolding p j by (rule pickle_json_distinct)
  have A: "snd (processPickleFile env filename src w) = Fulfilled"
    by (rule processPickleFile_fulfilled)
  have fail: "parse env c = Inl e \<Longrightarrow>
      convertPickleToJson env p j ?w1 = (log (ConvertError p e) ?w1, Rejected e)" for e
    by (rule convert_surfaces) (simp add: convert_body_def rd)
  have D: "parse env c = Inl e \<Longrightarrow> processPickleFile env filename src w
           = (log (PickleError filename e) (log (ConvertError p e) ?w1), Fulfilled)" for e
    by (simp add: processPickleFile_def body fail await_def)
  have keeps: "files (fst (convertPickleToJson env p j ?w1)) p = Some c"
    using pj
    by (simp add: convertPickleToJson_def convert_body_def rd writeFile_def await_def log_def
        split: sum.splits)
  have conv_files: "files (fst (processPickleFile env filename src w))
      = files (fst (convertPickleToJson env p j ?w1))"
    by (simp add: processPickleFile_def body await_def log_def split: prod.splits outcome.splits)
  have B: "files (fst (processPickleFile env filename src w)) p = Some c"
    by (simp add: conv_files keeps)
  have den: "denied ?w1 = denied w" by (simp add: log_def)
  have conv_ok: "parse env c = Inr v \<Longrightarrow> stringify env v = Inr js \<Longrightarrow> j \<notin> denied w \<Longrightarrow>
      convertPickleToJson env p j ?w1
        = (log (Converted p j) (?w1\<lparr>files := (files ?w1)(j \<mapsto> js)\<rparr>), Fulfilled)" for v js
    by (simp add: convertPickleToJson_def convert_body_def rd writeFile_def await_def den)
  have C: "parse env c = Inr v \<Longrightarrow> stringify env v = Inr js \<Longrightarrow> j \<notin> denied w \<Longrightarrow>
      files (fst (processPickleFile env filename src w)) j = Some js" for v js
    by (simp add: conv_files conv_ok) (simp add: log_def)
  show ?thesis using A B C D fail by blast
qed

theorem processPickleFile_decodes_witness:
  "files (w0\<lparr>files := [''/res/d/P'' \<mapsto> [1, 2, 3], ''/res/d/E'' \<mapsto> []]\<rparr>) ''/res/d/P'' = Some [1, 2, 3]
   \<and> parse env0 [1, 2, 3] = Inr [1, 2, 3] \<and> stringify env0 [1, 2, 3] = Inr [1, 2, 3]
   \<and> files (fst (processPickleFile env0 ''P'' ''/res/d/P''
                   (w0\<lparr>files := [''/res/d/P'' \<mapsto> [1, 2, 3], ''/res/d/E'' \<mapsto> []]\<rparr>)))
        ''/app/data/json/P.json'' = Some [1, 2, 3]
   \<and> parse env0 [] = Inl DecodeError
   \<and> console (fst (processPickleFile env0 ''E'' ''/res/d/E''
                   (w0\<lparr>files := [''/res/d/P'' \<mapsto> [1, 2, 3], ''/res/d/E'' \<mapsto> []]\<rparr>)))
       = [Copied ''/res/d/E'' ''/app/data/pickle/E.pickle'',
          ConvertError ''/app/data/pickle/E.pickle'' DecodeError,
          PickleError ''E'' DecodeError]
   \<and> snd (processPickleFile env0 ''E'' ''/res/d/E''
                   (w0\<lparr>files := [''/res/d/P'' \<mapsto> [1, 2, 3], ''/res/d/E'' \<mapsto> []]\<rparr>)) = Fulfilled"
proof -
  let ?w = "w0\<lparr>files := [''/res/d/P'' \<mapsto> [1, 2, 3], ''/res/d/E'' \<mapsto> []]\<rparr>"
  have srcP: "files ?w ''/res/d/P'' = Some [1, 2, 3]" by simp
  have srcE: "files ?w ''/res/d/E'' = Some []" by simp
  have pP: "''/app/data/pickle/P.pickle'' = path_join (destPickleDir env0) (''P'' @ ''.pickle'')"
    by (simp add: destPickleDir_def dataBaseDir_def path_join_def env0_def)
  have jP: "''/app/data/json/P.json'' = path_join (destJsonDir env0) (''P'' @ ''.json'')"
    by (simp add: destJsonDir_def dataBaseDir_def path_join_def env0_def)
  have pE: "''/app/data/pickle/E.pickle'' = path_join (destPickleDir env0) (''E'' @ ''.pickle'')"
    by (simp add: destPickleDir_def dataBaseDir_def path_join_def env0_def)
  have jE: "''/app/data/json/E.json'' = path_join (destJsonDir env0) (''E'' @ ''.json'')"
    by (simp add: destJsonDir_def dataBaseDir_def path_join_def env0_def)
  have okP: "''/app/data/pickle/P.pickle'' \<notin> denied ?w" by (simp add: w0_def)
  have okE: "''/app/data/pickle/E.pickle'' \<notin> denied ?w" by (simp add: w0_def)
  have okJ: "''/app/data/json/P.json'' \<notin> denied ?w" by (simp add: w0_def)
  have parseP: "parse env0 [1, 2, 3] = Inr [1, 2, 3]" by (simp add: env0_def)
  have strP: "stringify env0 [1, 2, 3] = Inr [1, 2, 3]" by (simp add: env0_def)
  have parseE: "parse env0 [] = Inl DecodeError" by (simp add: env0_def)
  show ?thesis
    using processPickleFile_decodes [OF srcP pP jP okP]
      processPickleFile_decodes [OF srcE pE jE okE]
      parseP strP parseE okJ srcP
    by (simp add: log_def w0_def)
qed

section \<open>The label resolver\<close>

subsection \<open>Loops and property access\<close>

lemma bind_Inr: "bind m f = Inr y \<longleftrightarrow> (\<exists>x. m = Inr x \<and> f x = Inr y)"
  by (cases m) (simp_all add: bind_def)

lemma bind_Inr_simp [simp]: "bind (Inr x) f = f x"
  by (simp add: bind_def)

lemma bind_Inl_simp [simp]: "bind (Inl e) f = Inl e"
  by (simp add: bind_def)

lemma forEach_invariant:
  assumes "forEach f xs s = Inr s'" and "I s"
    and "\<And>x s s'. x \<in> set xs \<Longrightarrow> I s \<Longrightarrow> f x s = Inr s' \<Longrightarrow> I s'"
  shows "I s'"
  using assms
proof (induction xs arbitrary: s)
  case Nil
  then show ?case by simp
next
  case (Cons x xs)
  from Cons.prems(1) obtain s1 where s1: "f x s = Inr s1" and rest: "forEach f xs s1 = Inr s'"
    by (auto simp: bind_Inr)
  have "I s1" by (rule Cons.prems(3) [of x s]) (simp_all add: Cons.prems(2) s1)
  then show ?case by (rule Cons.IH [OF rest]) (rule Cons.prems(3), simp_all)
qed

lemma forEach_total:
  assumes "\<And>x s. x \<in> set xs \<Longrightarrow> \<exists>s'. f x s = Inr s'"
  shows "\<exists>s'. forEach f xs s = Inr s'"
  using assms
proof (induction xs arbitrary: s)
  case Nil
  then show ?case by simp
next
  case (Cons x xs)
  then obtain s1 where "f x s = Inr s1" by (meson list.set_intros(1))
  then show ?case using Cons by simp
qed

lemma falsy_entries: "\<not> truthy v \<Longrightarrow> entries v = []"
  by (cases v rule: truthy.cases) simp_all

lemma get_prop_of: "get v k = Inr x \<Longrightarrow> prop_of v k = x"
  by (simp add: prop_of_def)

lemma get_present: "present v \<Longrightarrow> get v k = Inr (prop_of v k)"
  by (cases v) (simp_all add: present_def prop_of_def)

lemma get_Inr_present: "get v k = Inr x \<Longrightarrow> present v"
  by (cases v) (simp_all add: present_def)

lemma set_set_add: "set (set_add x s) = insert x (set s)"
  by (auto simp: set_add_def)

lemma distinct_set_add: "distinct s \<Longrightarrow> distinct (set_add x s)"
  by (simp add: set_add_def)

lemma ids_of_add_id:
  "ids_of k (add_id k' x s) = (if k = k' then set_add x (ids_of k s) else ids_of k s)"
  by (cases k; cases k') (simp_all add: ids_of.simps add_id.simps)

lemma ids_of_empty: "ids_of k \<lparr>allSystemIds = [], allConstellationIds = [], allRegionIds = []\<rparr> = []"
  by (cases k) (simp_all add: ids_of.simps)

lemma set_fold_add_id:
  "set (ids_of k (fold (add_id k') xs s)) =
     (if k = k' then set xs \<union> set (ids_of k s) else set (ids_of k s))"
  by (induction xs arbitrary: s) (auto simp: ids_of_add_id set_set_add)

lemma distinct_add_id: "distinct (ids_of k s) \<Longrightarrow> distinct (ids_of k (add_id k' x s))"
  by (auto simp: ids_of_add_id distinct_set_add)

lemma distinct_fold_add_id:
  "distinct (ids_of k s) \<Longrightarrow> distinct (ids_of k (fold (add_id k') xs s))"
  by (induction xs arbitrary: s) (simp_all add: distinct_add_id)

lemma add_keys_fold:
  "add_keys k obj s = fold (add_id k) (map (\<lambda>id. JNum (parseInt id)) (keys obj)) s"
  by (simp add: add_keys_def fold_map comp_def)

lemma set_add_keys:
  "set (ids_of k (add_keys k' obj s)) =
     (if k = k' then key_ids obj \<union> set (ids_of k s) else set (ids_of k s))"
  by (simp add: add_keys_fold set_fold_add_id key_ids_def)

lemma distinct_add_keys:
  "distinct (ids_of k s) \<Longrightarrow> distinct (ids_of k (add_keys k' obj s))"
  by (simp add: add_keys_fold distinct_fold_add_id)

lemma add_listed_Inr:
  assumes "add_listed k' field owner s = Inr s'"
  shows "set (ids_of k s') =
           (if k = k' then listed field owner \<union> set (ids_of k s) else set (ids_of k s))"
    and "distinct (ids_of k s) \<Longrightarrow> distinct (ids_of k s')"
proof -
  from assms obtain v where v: "get owner field = Inr v"
    and r: "(if truthy v then (case v of JArr xs \<Rightarrow> Inr (fold (add_id k') xs s) | _ \<Rightarrow> Inl TypeError)
             else Inr s) = Inr s'"
    by (auto simp: add_listed_def bind_Inr)
  have p: "prop_of owner field = v" using v by (rule get_prop_of)
  show "set (ids_of k s') =
           (if k = k' then listed field owner \<union> set (ids_of k s) else set (ids_of k s))"
    using r by (cases v) (auto simp: listed_def p set_fold_add_id split: if_splits)
  show "distinct (ids_of k s) \<Longrightarrow> distinct (ids_of k s')"
    using r by (cases v) (auto simp: distinct_fold_add_id split: if_splits)
qed

text \<open>What one region and one constellation contribute to the set of a kind.\<close>

lemma region_ids_Inr:
  assumes "region_ids r s = Inr s'"
  shows "set (ids_of System s') = listed ''solarSystemIDs'' r \<union> set (ids_of System s)"
    and "set (ids_of Constellation s') = listed ''constellationIDs'' r \<union> set (ids_of Constellation s)"
    and "set (ids_of Region s') = set (ids_of Region s)"
    and "distinct (ids_of k s) \<Longrightarrow> distinct (ids_of k s')"
proof -
  from assms obtain s1 where a: "add_listed System ''solarSystemIDs'' r s = Inr s1"
    and b: "add_listed Constellation ''constellationIDs'' r s1 = Inr s'"
    by (auto simp: region_ids_def bind_Inr)
  show "set (ids_of System s') = listed ''solarSystemIDs'' r \<union> set (ids_of System s)"
    using add_listed_Inr(1) [OF a, of System] add_listed_Inr(1) [OF b, of System] by simp
  show "set (ids_of Constellation s') = listed ''constellationIDs'' r \<union> set (ids_of Constellation s)"
    using add_listed_Inr(1) [OF a, of Constellation] add_listed_Inr(1) [OF b, of Constellation]
    by simp
  show "set (ids_of Region s') = set (ids_of Region s)"
    using add_listed_Inr(1) [OF a, of Region] add_listed_Inr(1) [OF b, of Region] by simp
  show "distinct (ids_of k s) \<Longrightarrow> distinct (ids_of k s')"
    using add_listed_Inr(2) [OF a] add_listed_Inr(2) [OF b] by blast
qed

lemma forEach_region_ids:
  assumes "forEach region_ids rs s = Inr s'"
  shows "set (ids_of System s') = (\<Union>r \<in> set rs. listed ''solarSystemIDs'' r) \<union> set (ids_of System s)
    \<and> set (ids_of Constellation s')
        = (\<Union>r \<in> set rs. listed ''constellationIDs'' r) \<union> set (ids_of Constellation s)
    \<and> set (ids_of Region s') = set (ids_of Region s)
    \<and> (\<forall>k. distinct (ids_of k s) \<longrightarrow> distinct (ids_of k s'))"
  using assms
proof (induction rs arbitrary: s)
  case Nil
  then show ?case by simp
next
  case (Cons r rs)
  from Cons.prems obtain s1 where s1: "region_ids r s = Inr s1"
    and rest: "forEach region_ids rs s1 = Inr s'"
    by (auto simp: bind_Inr)
  show ?case
    using Cons.IH [OF rest] region_ids_Inr [OF s1] by auto
qed

lemma forEach_constellation_ids:
  assumes "forEach constellation_ids cs s = Inr s'"
  shows "set (ids_of System s') = (\<Union>c \<in> set cs. listed ''solarSystemIDs'' c) \<union> set (ids_of System s)
    \<and> set (ids_of Constellation s') = set (ids_of Constellation s)
    \<and> set (ids_of Region s') = set (ids_of Region s)
    \<and> (\<forall>k. distinct (ids_of k s) \<longrightarrow> distinct (ids_of k s'))"
  using assms
proof (induction cs arbitrary: s)
  case Nil
  then show ?case by simp
next
  case (Cons c cs)
  from Cons.prems obtain s1 where s1: "constellation_ids c s = Inr s1"
    and rest: "forEach constellation_ids cs s1 = Inr s'"
    by (auto simp: bind_Inr)
  from s1 have s1': "add_listed System ''solarSystemIDs'' c s = Inr s1"
    by (simp add: constellation_ids_def)
  show ?case
    using Cons.IH [OF rest] add_listed_Inr(1) [OF s1', of System]
      add_listed_Inr(1) [OF s1', of Constellation] add_listed_Inr(1) [OF s1', of Region]
      add_listed_Inr(2) [OF s1']
    by auto
qed


lemma extract_ids_Inr:
  assumes "extract_ids cat = Inr s"
  shows "set (allRegionIds s) = spec_region_ids cat"
    and "set (allConstellationIds s) = spec_constellation_ids cat"
    and "set (allSystemIds s) = spec_system_ids cat"
    and "distinct (allRegionIds s)" and "distinct (allConstellationIds s)"
    and "distinct (allSystemIds s)"
proof -
  let ?s0 = "\<lparr>allSystemIds = [], allConstellationIds = [], allRegionIds = []\<rparr>"
  from assms obtain regions s1 constellations s2 solarSystems where
    g1: "get cat ''regions'' = Inr regions"
    and p1: "(if truthy regions then forEach region_ids (vals regions) (add_keys Region regions ?s0)
              else Inr ?s0) = Inr s1"
    and g2: "get cat ''constellations'' = Inr constellations"
    and p2: "(if truthy constellations
              then forEach constellation_ids (vals constellations)
                     (add_keys Constellation constellations s1)
              else Inr s1) = Inr s2"
    and g3: "get cat ''solarSystems'' = Inr solarSystems"
    and p3: "s = (if truthy solarSystems then add_keys System solarSystems s2 else s2)"
    by (auto simp: extract_ids_def bind_Inr Let_def)
  have r: "prop_of cat ''regions'' = regions" and c: "prop_of cat ''constellations'' = constellations"
    and y: "prop_of cat ''solarSystems'' = solarSystems"
    using g1 g2 g3 by (simp_all add: get_prop_of)
  have s1: "set (ids_of System s1) = (\<Union>r \<in> set (vals regions). listed ''solarSystemIDs'' r)
      \<and> set (ids_of Constellation s1) = (\<Union>r \<in> set (vals regions). listed ''constellationIDs'' r)
      \<and> set (ids_of Region s1) = key_ids regions
      \<and> (\<forall>k. distinct (ids_of k s1))"
  proof (cases "truthy regions")
    case True
    then have "forEach region_ids (vals regions) (add_keys Region regions ?s0) = Inr s1"
      using p1 by simp
    from forEach_region_ids [OF this] show ?thesis
      by (simp add: set_add_keys distinct_add_keys ids_of_empty)
  next
    case False
    then have "s1 = ?s0" using p1 by simp
    then show ?thesis
      using False by (simp add: vals_def key_ids_def keys_def falsy_entries ids_of_empty)
  qed
  have s2: "set (ids_of System s2) = set (ids_of System s1)
              \<union> (\<Union>c \<in> set (vals constellations). listed ''solarSystemIDs'' c)
      \<and> set (ids_of Constellation s2) = set (ids_of Constellation s1) \<union> key_ids constellations
      \<and> set (ids_of Region s2) = set (ids_of Region s1)
      \<and> (\<forall>k. distinct (ids_of k s2))"
  proof (cases "truthy constellations")
    case True
    then have "forEach constellation_ids (vals constellations)
                 (add_keys Constellation constellations s1) = Inr s2"
      using p2 by simp
    from forEach_constellation_ids [OF this] s1 show ?thesis
      by (simp add: set_add_keys distinct_add_keys Un_commute)
  next
    case False
    then have "s2 = s1" using p2 by simp
    then show ?thesis
      using False s1 by (simp add: vals_def key_ids_def keys_def falsy_entries)
  qed
  have s3: "set (ids_of System s) = set (ids_of System s2) \<union> key_ids solarSystems
      \<and> set (ids_of Constellation s) = set (ids_of Constellation s2)
      \<and> set (ids_of Region s) = set (ids_of Region s2)
      \<and> (\<forall>k. distinct (ids_of k s))"
  proof (cases "truthy solarSystems")
    case True
    then show ?thesis using s2 by (simp add: p3 set_add_keys distinct_add_keys Un_commute)
  next
    case False
    then show ?thesis using s2 by (simp add: p3 key_ids_def keys_def falsy_entries)
  qed
  have "set (ids_of Region s) = spec_region_ids cat"
    using s1 s2 s3 by (simp add: spec_region_ids_def r)
  then show "set (allRegionIds s) = spec_region_ids cat" by (simp add: ids_of.simps)
  have "set (ids_of Constellation s) = spec_constellation_ids cat"
    using s1 s2 s3 by (simp add: spec_constellation_ids_def r c)
  then show "set (allConstellationIds s) = spec_constellation_ids cat" by (simp add: ids_of.simps)
  have "set (ids_of System s) = spec_system_ids cat"
    using s1 s2 s3 by (simp add: spec_system_ids_def r c y)
  then show "set (allSystemIds s) = spec_system_ids cat" by (simp add: ids_of.simps)
  show "distinct (allRegionIds s)" using s3 ids_of.simps(3) by metis
  show "distinct (allConstellationIds s)" using s3 ids_of.simps(2) by metis
  show "distinct (allSystemIds s)" using s3 ids_of.simps(1) by metis
qed

lemma list_or_absent_cases:
  "list_or_absent v \<Longrightarrow> (\<exists>xs. v = JArr xs) \<or> \<not> truthy v"
  by (cases v) (simp_all add: list_or_absent_def)

lemma add_listed_total:
  assumes "present owner" and "list_or_absent (prop_of owner field)"
  shows "\<exists>s'. add_listed k field owner s = Inr s'"
  using list_or_absent_cases [OF assms(2)]
  by (auto simp: add_listed_def get_present [OF assms(1)])

lemma region_ids_total: "wf_region r \<Longrightarrow> \<exists>s'. region_ids r s = Inr s'"
proof -
  assume w: "wf_region r"
  then obtain s1 where "add_listed System ''solarSystemIDs'' r s = Inr s1"
    using add_listed_total [of r "''solarSystemIDs''" System s] by (auto simp: wf_region_def)
  moreover obtain s2 where "add_listed Constellation ''constellationIDs'' r s1 = Inr s2"
    using w add_listed_total [of r "''constellationIDs''" Constellation s1]
    by (auto simp: wf_region_def)
  ultimately show ?thesis by (simp add: region_ids_def)
qed

lemma constellation_ids_total: "wf_constellation c \<Longrightarrow> \<exists>s'. constellation_ids c s = Inr s'"
  using add_listed_total [of c "''solarSystemIDs''" System s]
  by (simp add: constellation_ids_def wf_constellation_def)

lemma extract_ids_total:
  assumes "wf_starmap cat"
  shows "\<exists>s. extract_ids cat = Inr s"
proof -
  have pres: "present cat" and rs: "list_all wf_region (vals (prop_of cat ''regions''))"
    and cs: "list_all wf_constellation (vals (prop_of cat ''constellations''))"
    using assms by (simp_all add: wf_starmap_def)
  have a: "\<exists>s'. forEach region_ids (vals (prop_of cat ''regions'')) s = Inr s'" for s
    by (rule forEach_total) (use rs in \<open>auto simp: list_all_iff intro: region_ids_total\<close>)
  have b: "\<exists>s'. forEach constellation_ids (vals (prop_of cat ''constellations'')) s = Inr s'" for s
    by (rule forEach_total) (use cs in \<open>auto simp: list_all_iff intro: constellation_ids_total\<close>)
  let ?s0 = "\<lparr>allSystemIds = [], allConstellationIds = [], allRegionIds = []\<rparr>"
  obtain s1 where s1: "(if truthy (prop_of cat ''regions'')
      then forEach region_ids (vals (prop_of cat ''regions''))
             (add_keys Region (prop_of cat ''regions'') ?s0)
      else Inr ?s0) = Inr s1"
    using a by (cases "truthy (prop_of cat ''regions'')") auto
  obtain s2 where s2: "(if truthy (prop_of cat ''constellations'')
      then forEach constellation_ids (vals (prop_of cat ''constellations''))
             (add_keys Constellation (prop_of cat ''constellations'') s1)
      else Inr s1) = Inr s2"
    using b by (cases "truthy (prop_of cat ''constellations'')") auto
  show ?thesis
    by (simp add: extract_ids_def get_present [OF pres] s1 s2 Let_def)
qed

subsection \<open>The message index\<close>

lemma set_map_set: "set (map_set k v m) \<subseteq> insert (k, v) (set m)"
  by (induction m) (auto split: if_splits)

lemma distinct_map_set: "distinct (map fst m) \<Longrightarrow> distinct (map fst (map_set k v m))"
proof (induction m)
  case Nil
  then show ?case by simp
next
  case (Cons a m)
  have "fst ` set (map_set k v m) \<subseteq> insert k (fst ` set m)"
    using set_map_set [of k v m] by force
  then show ?case using Cons by (cases a) auto
qed

lemma index_of_index_set:
  "index_of k (index_set k' i m ix) = (if k = k' then map_set i m (index_of k ix) else index_of k ix)"
  by (cases k; cases k') (simp_all add: index_of.simps index_set.simps)

lemma index_of_empty:
  "index_of k \<lparr>systemIdToMessageId = [], constellationIdToMessageId = [],
                regionIdToMessageId = []\<rparr> = []"
  by (cases k) (simp_all add: index_of.simps)

lemma index_kind_Inr:
  assumes "index_kind k ids mk lbl ix = Inr ix'"
  shows "ix' = ix \<or> (\<exists>s ds. lbl = JStr s \<and> label_match (label_prefix k) s = Some ds
           \<and> JNum (parseInt ds) \<in> set (ids_of k ids)
           \<and> ix' = index_set k (parseInt ds) (parseInt mk) ix)"
  using assms
  by (auto simp: index_kind_def Let_def split: jsval.splits option.splits if_splits)

lemma index_entry_Inr:
  assumes "index_entry ids (mk, e) ix = Inr ix'"
  shows "ix' = ix \<or> (\<exists>k s ds. get e ''FullPath'' = Inr (JStr (full_path k))
           \<and> get e ''label'' = Inr (JStr s)
           \<and> label_match (label_prefix k) s = Some ds
           \<and> JNum (parseInt ds) \<in> set (ids_of k ids)
           \<and> ix' = index_set k (parseInt ds) (parseInt mk) ix)"
proof -
  from assms obtain fp lbl where fp: "get e ''FullPath'' = Inr fp"
    and lbl: "get e ''label'' = Inr lbl"
    and r: "(if fp = JStr ''Map/SolarSystems'' \<and> truthy lbl
               then index_kind System ids mk lbl ix
             else if fp = JStr ''Map/Constellations'' \<and> truthy lbl
               then index_kind Constellation ids mk lbl ix
             else if fp = JStr ''Map/Regions'' \<and> truthy lbl
               then index_kind Region ids mk lbl ix
             else Inr ix) = Inr ix'"
    by (auto simp: index_entry_def bind_Inr)
  consider (sys) "fp = JStr (full_path System)" "index_kind System ids mk lbl ix = Inr ix'"
    | (con) "fp = JStr (full_path Constellation)" "index_kind Constellation ids mk lbl ix = Inr ix'"
    | (reg) "fp = JStr (full_path Region)" "index_kind Region ids mk lbl ix = Inr ix'"
    | (none) "ix' = ix"
    using r by (auto split: if_splits)
  then show ?thesis
  proof cases
    case sys
    from index_kind_Inr [OF sys(2)] show ?thesis using fp lbl sys(1) by blast
  next
    case con
    from index_kind_Inr [OF con(2)] show ?thesis using fp lbl con(1) by blast
  next
    case reg
    from index_kind_Inr [OF reg(2)] show ?thesis using fp lbl reg(1) by blast
  next
    case none
    then show ?thesis by simp
  qed
qed

lemma build_index_Inr:
  assumes "build_index main ids = Inr ix"
  shows "distinct (map fst (index_of k ix))"
    and "(i, m) \<in> set (index_of k ix) \<Longrightarrow> index_link k ids (entries (prop_of main ''labels'')) i m"
proof -
  let ?ix0 = "\<lparr>systemIdToMessageId = [], constellationIdToMessageId = [],
                regionIdToMessageId = []\<rparr>"
  let ?lbls = "entries (prop_of main ''labels'')"
  let ?I = "\<lambda>ix. \<forall>k. distinct (map fst (index_of k ix))
                \<and> (\<forall>i m. (i, m) \<in> set (index_of k ix) \<longrightarrow> index_link k ids ?lbls i m)"
  from assms obtain labels where g: "get main ''labels'' = Inr labels"
    and r: "(if truthy labels then forEach (index_entry ids) (entries labels) ?ix0 else Inr ?ix0)
              = Inr ix"
    by (auto simp: build_index_def bind_Inr Let_def)
  have p: "prop_of main ''labels'' = labels" using g by (rule get_prop_of)
  have I0: "?I ?ix0" by (simp add: index_of_empty)
  have "?I ix"
  proof (cases "truthy labels")
    case False
    then show ?thesis using r I0 by simp
  next
    case True
    then have fe: "forEach (index_entry ids) ?lbls ?ix0 = Inr ix" using r p by simp
    show ?thesis
    proof (rule forEach_invariant [OF fe, where I = ?I, OF I0])
      fix x s s'
      assume x: "x \<in> set ?lbls" and Is: "?I s" and step: "index_entry ids x s = Inr s'"
      obtain mk e where xe: "x = (mk, e)" by (cases x)
      from index_entry_Inr [OF step [unfolded xe]]
      show "?I s'"
      proof
        assume "s' = s"
        then show ?thesis using Is by simp
      next
        assume "\<exists>k s0 ds. get e ''FullPath'' = Inr (JStr (full_path k))
           \<and> get e ''label'' = Inr (JStr s0)
           \<and> label_match (label_prefix k) s0 = Some ds
           \<and> JNum (parseInt ds) \<in> set (ids_of k ids)
           \<and> s' = index_set k (parseInt ds) (parseInt mk) s"
        then obtain k0 s0 ds where fp: "get e ''FullPath'' = Inr (JStr (full_path k0))"
          and lb: "get e ''label'' = Inr (JStr s0)"
          and lm: "label_match (label_prefix k0) s0 = Some ds"
          and mem: "JNum (parseInt ds) \<in> set (ids_of k0 ids)"
          and s': "s' = index_set k0 (parseInt ds) (parseInt mk) s"
          by blast
        have new: "index_link k0 ids ?lbls (parseInt ds) (parseInt mk)"
          unfolding index_link_def using x xe fp lb lm mem by blast
        show ?thesis
        proof (intro allI conjI impI)
          fix k
          show "distinct (map fst (index_of k s'))"
            using Is by (simp add: s' index_of_index_set distinct_map_set)
        next
          fix k i m
          assume "(i, m) \<in> set (index_of k s')"
          then have "(i, m) \<in> set (index_of k s) \<or> (k = k0 \<and> i = parseInt ds \<and> m = parseInt mk)"
            using set_map_set [of "parseInt ds" "parseInt mk" "index_of k s"]
            by (auto simp: s' index_of_index_set split: if_splits)
          then show "index_link k ids ?lbls i m" using Is new by blast
        qed
      qed
    qed
  qed
  then show "distinct (map fst (index_of k ix))"
    and "(i, m) \<in> set (index_of k ix) \<Longrightarrow> index_link k ids ?lbls i m"
    by blast+
qed

subsection \<open>Name resolution and totality\<close>

lemma resolve_one_Inr:
  assumes "resolve_one ld (i, m) L = Inr L'"
  shows "L' = L \<or> (\<exists>n rest. get ld (ToString m) = Inr (JArr (n # rest)) \<and> truthy n
                      \<and> L' = map_set i n L)"
  using assms
  by (auto simp: resolve_one_def bind_Inr split: if_splits jsval.splits list.splits)

lemma forEach_resolve_one:
  assumes "forEach (resolve_one ld) ix L = Inr L'" and "(i, n) \<in> set L'"
  shows "(i, n) \<in> set L
     \<or> (\<exists>m rest. (i, m) \<in> set ix \<and> get ld (ToString m) = Inr (JArr (n # rest)) \<and> truthy n)"
  using assms
proof (induction ix arbitrary: L)
  case Nil
  then show ?case by simp
next
  case (Cons x ix)
  obtain i0 m0 where x: "x = (i0, m0)" by (cases x)
  from Cons.prems(1) obtain L1 where one: "resolve_one ld (i0, m0) L = Inr L1"
    and rest: "forEach (resolve_one ld) ix L1 = Inr L'"
    by (auto simp: bind_Inr x)
  from Cons.IH [OF rest Cons.prems(2)]
  show ?case
  proof
    assume in1: "(i, n) \<in> set L1"
    from resolve_one_Inr [OF one] show ?thesis
    proof
      assume "L1 = L"
      then show ?thesis using in1 by simp
    next
      assume "\<exists>n0 rest. get ld (ToString m0) = Inr (JArr (n0 # rest)) \<and> truthy n0
                \<and> L1 = map_set i0 n0 L"
      then obtain n0 rest0 where g: "get ld (ToString m0) = Inr (JArr (n0 # rest0))"
        and t: "truthy n0" and L1: "L1 = map_set i0 n0 L"
        by blast
      have "(i, n) \<in> set L \<or> (i, n) = (i0, n0)"
        using in1 set_map_set [of i0 n0 L] by (auto simp: L1)
      then show ?thesis using g t x by auto
    qed
  next
    assume "\<exists>m rest. (i, m) \<in> set ix \<and> get ld (ToString m) = Inr (JArr (n # rest)) \<and> truthy n"
    then show ?thesis by auto
  qed
qed

lemma resolve_names_Inr:
  assumes "resolve_names ld ix = Inr r" and "(i, n) \<in> set (labels_of k r)"
  shows "\<exists>m rest. (i, m) \<in> set (index_of k ix)
           \<and> get ld (ToString m) = Inr (JArr (n # rest)) \<and> truthy n"
proof -
  from assms(1) obtain s c g where
    s: "forEach (resolve_one ld) (systemIdToMessageId ix) [] = Inr s"
    and c: "forEach (resolve_one ld) (constellationIdToMessageId ix) [] = Inr c"
    and g: "forEach (resolve_one ld) (regionIdToMessageId ix) [] = Inr g"
    and r: "r = \<lparr>systemLabels = s, constellationLabels = c, regionLabels = g\<rparr>"
    by (auto simp: resolve_names_def bind_Inr)
  show ?thesis
  proof (cases k)
    case System
    then have "(i, n) \<in> set s" using assms(2) r by (simp add: labels_of.simps)
    from forEach_resolve_one [OF s this] show ?thesis by (simp add: System index_of.simps)
  next
    case Constellation
    then have "(i, n) \<in> set c" using assms(2) r by (simp add: labels_of.simps)
    from forEach_resolve_one [OF c this] show ?thesis by (simp add: Constellation index_of.simps)
  next
    case Region
    then have "(i, n) \<in> set g" using assms(2) r by (simp add: labels_of.simps)
    from forEach_resolve_one [OF g this] show ?thesis by (simp add: Region index_of.simps)
  qed
qed

lemma resolve_one_total:
  assumes "present ld"
  shows "\<exists>L'. resolve_one ld im L = Inr L'"
  by (cases im) (simp add: resolve_one_def get_present [OF assms] split: jsval.splits list.splits)

lemma resolve_names_total:
  assumes "present ld"
  shows "\<exists>r. resolve_names ld ix = Inr r"
proof -
  have t: "\<exists>L'. forEach (resolve_one ld) xs [] = Inr L'" for xs
    by (rule forEach_total) (rule resolve_one_total [OF assms])
  obtain s where s: "forEach (resolve_one ld) (systemIdToMessageId ix) [] = Inr s"
    using t by blast
  obtain c where c: "forEach (resolve_one ld) (constellationIdToMessageId ix) [] = Inr c"
    using t by blast
  obtain g where g: "forEach (resolve_one ld) (regionIdToMessageId ix) [] = Inr g"
    using t by blast
  show ?thesis by (simp add: resolve_names_def s c g)
qed

lemma string_or_absent_cases:
  "string_or_absent v \<Longrightarrow> (\<exists>s. v = JStr s) \<or> \<not> truthy v"
  by (cases v) (simp_all add: string_or_absent_def)

lemma index_kind_total: "\<exists>ix'. index_kind k ids mk (JStr s) ix = Inr ix'"
  by (simp add: index_kind_def Let_def split: option.splits)

lemma index_entry_total:
  assumes "wf_entry (snd me)"
  shows "\<exists>ix'. index_entry ids me ix = Inr ix'"
proof -
  obtain mk e where me: "me = (mk, e)" by (cases me)
  have pres: "present e" and lbl: "string_or_absent (prop_of e ''label'')"
    using assms by (simp_all add: wf_entry_def me)
  from string_or_absent_cases [OF lbl] show ?thesis
  proof
    assume "\<exists>s. prop_of e ''label'' = JStr s"
    then obtain s where s: "prop_of e ''label'' = JStr s" by blast
    show ?thesis
      using index_kind_total [of System ids mk s ix] index_kind_total [of Constellation ids mk s ix]
        index_kind_total [of Region ids mk s ix]
      by (simp add: index_entry_def me get_present [OF pres] s)
  next
    assume "\<not> truthy (prop_of e ''label'')"
    then show ?thesis by (simp add: index_entry_def me get_present [OF pres])
  qed
qed

lemma build_index_total:
  assumes "wf_index main"
  shows "\<exists>ix. build_index main ids = Inr ix"
proof -
  have pres: "present main" and es: "list_all wf_entry (vals (prop_of main ''labels''))"
    using assms by (simp_all add: wf_index_def)
  have "\<exists>ix'. forEach (index_entry ids) (entries (prop_of main ''labels'')) ix = Inr ix'" for ix
    by (rule forEach_total, rule index_entry_total) (use es in \<open>simp add: list_all_iff vals_def\<close>)
  then show ?thesis
    by (simp add: build_index_def get_present [OF pres] Let_def)
qed

lemma resolve_total:
  assumes "wf_starmap cat" and "wf_index main" and "wf_strings doc"
  shows "\<exists>r. resolve cat main doc = Inr r"
proof -
  obtain ids where ids: "extract_ids cat = Inr ids"
    using extract_ids_total [OF assms(1)] by blast
  obtain ix where ix: "build_index main ids = Inr ix"
    using build_index_total [OF assms(2)] by blast
  have d: "present doc" and ld: "present (prop_of doc ''1'')"
    using assms(3) by (simp_all add: wf_strings_def)
  obtain r where r: "resolve_names (prop_of doc ''1'') ix = Inr r"
    using resolve_names_total [OF ld] by blast
  show ?thesis by (simp add: resolve_def ids ix get_present [OF d] r)
qed

subsection \<open>The pattern and parseInt\<close>

lemma label_match_Some:
  assumes "label_match pre s = Some ds"
  shows "\<exists>a b. s = a @ pre @ ds @ b \<and> ds \<noteq> [] \<and> list_all is_digit ds
           \<and> (b = [] \<or> \<not> is_digit (hd b))"
  using assms
proof (induction s)
  case Nil
  then show ?case by simp
next
  case (Cons c cs)
  let ?t = "c # cs"
  let ?ds = "takeWhile is_digit (drop (length pre) ?t)"
  show ?case
  proof (cases "take (length pre) ?t = pre \<and> ?ds \<noteq> []")
    case True
    then have ds: "ds = ?ds" using Cons.prems by (simp add: Let_def)
    let ?b = "dropWhile is_digit (drop (length pre) ?t)"
    have "?t = take (length pre) ?t @ drop (length pre) ?t" by simp
    also have "\<dots> = pre @ ?ds @ ?b" using True by simp
    finally have split: "?t = [] @ pre @ ds @ ?b" by (simp add: ds)
    have dig: "list_all is_digit ds"
      unfolding ds list_all_iff by (auto dest: set_takeWhileD)
    have tail: "?b = [] \<or> \<not> is_digit (hd ?b)"
      using hd_dropWhile [of is_digit "drop (length pre) ?t"] by blast
    show ?thesis using split dig tail True ds by blast
  next
    case False
    then have "label_match pre cs = Some ds" using Cons.prems by (auto simp: Let_def)
    from Cons.IH [OF this] obtain a b where "cs = a @ pre @ ds @ b" "ds \<noteq> []"
      "list_all is_digit ds" "b = [] \<or> \<not> is_digit (hd b)"
      by blast
    then have "?t = (c # a) @ pre @ ds @ b" by simp
    then show ?thesis
      using \<open>ds \<noteq> []\<close> \<open>list_all is_digit ds\<close> \<open>b = [] \<or> \<not> is_digit (hd b)\<close> by blast
  qed
qed

lemma digit_not_space: "is_digit c \<Longrightarrow> \<not> is_space c"
  by (auto simp: is_digit_def is_space_def)

lemma parseInt_digits:
  assumes "ds \<noteq> []" and "list_all is_digit ds"
  shows "parseInt ds = Num (int (radix_val 10 ds))"
proof -
  obtain c cs where ds: "ds = c # cs" using assms(1) by (cases ds) auto
  have c: "is_digit c" and cs: "list_all is_digit cs" using assms(2) ds by simp_all
  have c1: "\<not> is_space c" using c by (rule digit_not_space)
  have c2: "c \<noteq> CHR ''-''" "c \<noteq> CHR ''+''" using c by (auto simp: is_digit_def)
  have tw: "takeWhile is_digit (c # cs) = c # cs"
    using assms(2) by (simp add: takeWhile_eq_all_conv list_all_iff ds)
  show ?thesis
  proof (cases cs)
    case Nil
    then show ?thesis using c by (simp add: parseInt_def Let_def ds c1 c2)
  next
    case (Cons d ds')
    then have "is_digit d" using cs by simp
    then have d: "d \<noteq> CHR ''x''" "d \<noteq> CHR ''X''" by (auto simp: is_digit_def)
    have tw': "takeWhile is_digit (c # d # ds') = c # d # ds'" using tw Cons by simp
    show ?thesis
      by (simp add: parseInt_def Let_def ds Cons c1 c2 d tw' del: takeWhile.simps)
  qed
qed

subsection \<open>The claims about the resolver\<close>

lemma distinct_fst_unique:
  "distinct (map fst xs) \<Longrightarrow> (i, m) \<in> set xs \<Longrightarrow> (i, m') \<in> set xs \<Longrightarrow> m = m'"
  by (meson eq_key_imp_eq_value)

lemma resolve_Inr:
  assumes "resolve cat main doc = Inr r"
  obtains ids ix ld where "extract_ids cat = Inr ids" and "build_index main ids = Inr ix"
    and "get doc ''1'' = Inr ld" and "resolve_names ld ix = Inr r"
  using assms by (auto simp: resolve_def bind_Inr)

text \<open>
  C1, as amended.  An identifier is in a kind's label map only if it is in the kind's set of
  identifiers, some entry of the localization index has the kind's path tag and a string
  label in which the kind's prefix is followed by a run of digits, not followed by a
  further digit, whose decimal value is the identifier (the label need not begin with
  the prefix nor end with the digits), and element 1 of the string-table document has, at
  the message identifier of that entry, an array whose first element is not null.  For
  catalogs of the documented shape the resolver raises no error.
\<close>

theorem labels_only_if_links:
  "(\<forall>r i n. resolve cat main doc = Inr r \<and> (i, n) \<in> set (labels_of k r) \<longrightarrow>
      (\<exists>ids. extract_ids cat = Inr ids \<and> JNum i \<in> set (ids_of k ids))
      \<and> (\<exists>mk e s a ds b rest.
            (mk, e) \<in> set (entries (prop_of main ''labels''))
            \<and> prop_of e ''FullPath'' = JStr (full_path k)
            \<and> prop_of e ''label'' = JStr s
            \<and> s = a @ label_prefix k @ ds @ b \<and> ds \<noteq> [] \<and> list_all is_digit ds
            \<and> (b = [] \<or> \<not> is_digit (hd b))
            \<and> i = Num (int (radix_val 10 ds))
            \<and> prop_of (prop_of doc ''1'') (ToString (parseInt mk)) = JArr (n # rest)
            \<and> n \<noteq> JNull))
   \<and> (wf_starmap cat \<and> wf_index main \<and> wf_strings doc \<longrightarrow>
        (\<exists>r. resolve cat main doc = Inr r))"
proof (intro conjI allI impI)
  fix r i n
  assume h: "resolve cat main doc = Inr r \<and> (i, n) \<in> set (labels_of k r)"
  then obtain ids ix ld where ids: "extract_ids cat = Inr ids"
    and ix: "build_index main ids = Inr ix"
    and ld: "get doc ''1'' = Inr ld" and rn: "resolve_names ld ix = Inr r"
    by (auto elim: resolve_Inr)
  from resolve_names_Inr [OF rn] h obtain m rest where
    im: "(i, m) \<in> set (index_of k ix)"
    and ent: "get ld (ToString m) = Inr (JArr (n # rest))" and tn: "truthy n"
    by blast
  from build_index_Inr(2) [OF ix im] obtain mk e s ds where
    mem: "JNum i \<in> set (ids_of k ids)"
    and e: "(mk, e) \<in> set (entries (prop_of main ''labels''))"
    and fp: "get e ''FullPath'' = Inr (JStr (full_path k))"
    and lb: "get e ''label'' = Inr (JStr s)"
    and lm: "label_match (label_prefix k) s = Some ds"
    and i: "i = parseInt ds" and m: "m = parseInt mk"
    unfolding index_link_def by blast
  from label_match_Some [OF lm] obtain a b where
    s: "s = a @ label_prefix k @ ds @ b" and ne: "ds \<noteq> []" and dg: "list_all is_digit ds"
    and tl: "b = [] \<or> \<not> is_digit (hd b)"
    by blast
  have iv: "i = Num (int (radix_val 10 ds))" using i parseInt_digits [OF ne dg] by simp
  have nn: "n \<noteq> JNull" using tn by auto
  have t3: "prop_of (prop_of doc ''1'') (ToString (parseInt mk)) = JArr (n # rest)"
    using ld ent m by (simp add: get_prop_of)
  show "\<exists>ids. extract_ids cat = Inr ids \<and> JNum i \<in> set (ids_of k ids)"
    using ids mem by blast
  show "\<exists>mk e s a ds b rest.
            (mk, e) \<in> set (entries (prop_of main ''labels''))
            \<and> prop_of e ''FullPath'' = JStr (full_path k)
            \<and> prop_of e ''label'' = JStr s
            \<and> s = a @ label_prefix k @ ds @ b \<and> ds \<noteq> [] \<and> list_all is_digit ds
            \<and> (b = [] \<or> \<not> is_digit (hd b))
            \<and> i = Num (int (radix_val 10 ds))
            \<and> prop_of (prop_of doc ''1'') (ToString (parseInt mk)) = JArr (n # rest)
            \<and> n \<noteq> JNull"
    using e get_prop_of [OF fp] get_prop_of [OF lb] s ne dg tl iv t3 nn by blast
next
  assume "wf_starmap cat \<and> wf_index main \<and> wf_strings doc"
  then show "\<exists>r. resolve cat main doc = Inr r" using resolve_total by blast
qed

lemma resolve_jita: "resolve cat7 index7 table7 = Inr jita"
  by code_simp

theorem labels_only_if_links_witness:
  "resolve cat7 index7 table7 = Inr jita
   \<and> (Num 7, JStr ''Jita'') \<in> set (labels_of System jita)
   \<and> wf_starmap cat7 \<and> wf_index index7 \<and> wf_strings table7
   \<and> (\<exists>ids. extract_ids cat7 = Inr ids \<and> JNum (Num 7) \<in> set (ids_of System ids))
   \<and> (\<exists>r. resolve cat7 index7 table7 = Inr r)"
proof -
  have m: "(Num 7, JStr ''Jita'') \<in> set (labels_of System jita)"
    by (simp add: jita_def labels_of.simps)
  have w1: "wf_starmap cat7" by code_simp
  have w2: "wf_index index7" by code_simp
  have w3: "wf_strings table7" by code_simp
  show ?thesis
    using labels_only_if_links [of cat7 index7 table7 System] resolve_jita m w1 w2 w3
    by blast
qed

text \<open>
  C1, as stated, fails twice.  With the label \<open>solar_system_7_2\<close> the identifier 7 is in
  the output although no entry has a label that is the prefix followed by the number 7
  to its end.  With a string-table document that has no element at index 1 the third link
  is missing for every identifier and the resolver throws a \<open>TypeError\<close>.
\<close>

theorem label_suffix_counterexample:
  "resolve cat7 index7_tail table7 = Inr jita
   \<and> (Num 7, JStr ''Jita'') \<in> set (systemLabels jita)
   \<and> \<not> stated_index_link System (Num 7) index7_tail
   \<and> resolve cat7 index7 table_short = Inl TypeError"
proof -
  have a: "resolve cat7 index7_tail table7 = Inr jita" by code_simp
  have b: "(Num 7, JStr ''Jita'') \<in> set (systemLabels jita)" by (simp add: jita_def)
  have c: "\<not> stated_index_link System (Num 7) index7_tail" by code_simp
  have d: "resolve cat7 index7 table_short = Inl TypeError" by code_simp
  show ?thesis using a b c d by blast
qed

text \<open>
  C7.  Whenever identifier discovery returns, its three sets hold no duplicates and are the
  unions of the specification: the region keys; the constellation lists of the regions and
  the constellation keys; the solar-system lists of the regions, those of the
  constellations, and the keys of the direct listing.  It returns for every catalog of the
  documented shape.
\<close>

theorem extract_ids_union:
  "(\<forall>s. extract_ids cat = Inr s \<longrightarrow>
      set (allRegionIds s) = spec_region_ids cat
      \<and> set (allConstellationIds s) = spec_constellation_ids cat
      \<and> set (allSystemIds s) = spec_system_ids cat
      \<and> distinct (allRegionIds s) \<and> distinct (allConstellationIds s)
      \<and> distinct (allSystemIds s))
   \<and> (wf_starmap cat \<longrightarrow> (\<exists>s. extract_ids cat = Inr s))"
  using extract_ids_Inr [of cat] extract_ids_total [of cat] by blast

theorem extract_ids_union_witness:
  "wf_starmap cat1
   \<and> extract_ids cat1
       = Inr \<lparr>allSystemIds = [JNum (Num 1), JNum (Num 2), JNum (Num 3), JNum (Num 7)],
              allConstellationIds = [JNum (Num 5)], allRegionIds = [JNum (Num 10)]\<rparr>
   \<and> spec_system_ids cat1 = {JNum (Num 1), JNum (Num 2), JNum (Num 3), JNum (Num 7)}
   \<and> spec_constellation_ids cat1 = {JNum (Num 5)}
   \<and> spec_region_ids cat1 = {JNum (Num 10)}"
proof -
  have w: "wf_starmap cat1" by code_simp
  have e: "extract_ids cat1
       = Inr \<lparr>allSystemIds = [JNum (Num 1), JNum (Num 2), JNum (Num 3), JNum (Num 7)],
              allConstellationIds = [JNum (Num 5)], allRegionIds = [JNum (Num 10)]\<rparr>"
    by code_simp
  show ?thesis
    using extract_ids_union [of cat1] w e by auto
qed

text \<open>
  C9.  Every name in a label map is truthy.  An identifier whose message identifier leads
  to a string-table entry with a falsy first element is not in the label map; the empty
  string is falsy.
\<close>

theorem falsy_names_excluded:
  "(\<forall>r i n. resolve cat main doc = Inr r \<and> (i, n) \<in> set (labels_of k r) \<longrightarrow> truthy n)
   \<and> (\<forall>r ids ix ld i m x rest.
         resolve cat main doc = Inr r \<and> extract_ids cat = Inr ids
         \<and> build_index main ids = Inr ix \<and> get doc ''1'' = Inr ld
         \<and> (i, m) \<in> set (index_of k ix)
         \<and> get ld (ToString m) = Inr (JArr (x # rest)) \<and> \<not> truthy x
         \<longrightarrow> i \<notin> fst ` set (labels_of k r))
   \<and> \<not> truthy (JStr [])"
proof (intro conjI allI impI)
  fix r i n
  assume h: "resolve cat main doc = Inr r \<and> (i, n) \<in> set (labels_of k r)"
  then obtain ld ix where "resolve_names ld ix = Inr r" by (auto elim: resolve_Inr)
  from resolve_names_Inr [OF this] h show "truthy n" by blast
next
  fix r ids ix ld i m x rest
  assume h: "resolve cat main doc = Inr r \<and> extract_ids cat = Inr ids
         \<and> build_index main ids = Inr ix \<and> get doc ''1'' = Inr ld
         \<and> (i, m) \<in> set (index_of k ix)
         \<and> get ld (ToString m) = Inr (JArr (x # rest)) \<and> \<not> truthy x"
  then have rn: "resolve_names ld ix = Inr r" by (auto simp: resolve_def)
  show "i \<notin> fst ` set (labels_of k r)"
  proof
    assume "i \<in> fst ` set (labels_of k r)"
    then obtain n where "(i, n) \<in> set (labels_of k r)" by auto
    from resolve_names_Inr [OF rn this] obtain m' rest' where
      im': "(i, m') \<in> set (index_of k ix)"
      and g: "get ld (ToString m') = Inr (JArr (n # rest'))" and t: "truthy n"
      by blast
    have d: "distinct (map fst (index_of k ix))" using h build_index_Inr(1) by blast
    have "m' = m" using distinct_fst_unique [OF d im'] h by blast
    then have "x = n" using g h by simp
    then show False using t h by simp
  qed
next
  show "\<not> truthy (JStr [])" by simp
qed

lemma resolve_empty_name:
  "resolve cat7 index7 table7_empty
     = Inr \<lparr>systemLabels = [], constellationLabels = [], regionLabels = []\<rparr>"
  by code_simp

lemma extract_ids_cat7:
  "extract_ids cat7
     = Inr \<lparr>allSystemIds = [JNum (Num 7)], allConstellationIds = [], allRegionIds = []\<rparr>"
  by code_simp

lemma build_index_index7:
  "build_index index7 \<lparr>allSystemIds = [JNum (Num 7)], allConstellationIds = [], allRegionIds = []\<rparr>
     = Inr \<lparr>systemIdToMessageId = [(Num 7, Num 500)], constellationIdToMessageId = [],
            regionIdToMessageId = []\<rparr>"
  by code_simp

theorem falsy_names_excluded_witness:
  "resolve cat7 index7 table7 = Inr jita
   \<and> (Num 7, JStr ''Jita'') \<in> set (labels_of System jita) \<and> truthy (JStr ''Jita'')
   \<and> resolve cat7 index7 table7_empty
       = Inr \<lparr>systemLabels = [], constellationLabels = [], regionLabels = []\<rparr>
   \<and> (Num 7, Num 500)
       \<in> set (index_of System \<lparr>systemIdToMessageId = [(Num 7, Num 500)],
                                 constellationIdToMessageId = [], regionIdToMessageId = []\<rparr>)
   \<and> get table7_empty ''1'' = Inr (JObj [(''500'', JArr [JStr []])])
   \<and> get (JObj [(''500'', JArr [JStr []])]) (ToString (Num 500)) = Inr (JArr [JStr []])
   \<and> \<not> truthy (JStr [])
   \<and> Num 7 \<notin> fst ` set (labels_of System
         \<lparr>systemLabels = [], constellationLabels = [], regionLabels = []\<rparr>)"
proof -
  have m: "(Num 7, JStr ''Jita'') \<in> set (labels_of System jita)"
    by (simp add: jita_def labels_of.simps)
  have i: "(Num 7, Num 500)
       \<in> set (index_of System \<lparr>systemIdToMessageId = [(Num 7, Num 500)],
                                 constellationIdToMessageId = [], regionIdToMessageId = []\<rparr>)"
    by (simp add: index_of.simps)
  have g1: "get table7_empty ''1'' = Inr (JObj [(''500'', JArr [JStr []])])" by code_simp
  have g2: "get (JObj [(''500'', JArr [JStr []])]) (ToString (Num 500)) = Inr (JArr [JStr []])"
    by code_simp
  show ?thesis
    using falsy_names_excluded [of cat7 index7 table7 System]
      falsy_names_excluded [of cat7 index7 table7_empty System]
      resolve_jita m resolve_empty_name extract_ids_cat7 build_index_index7 i g1 g2
    by (simp add: labels_of.simps)
qed

text \<open>
  C10.  The resolver reads the string-table document only through its element at index 1:
  two documents with the same element there give the same result, whatever their top
  levels hold.
\<close>

theorem resolve_reads_element_1_only:
  assumes "get doc ''1'' = get doc' ''1''"
  shows "resolve cat main doc = resolve cat main doc'
    \<and> resolve_and_write cfg cat main doc w = resolve_and_write cfg cat main doc' w"
  unfolding resolve_def resolve_and_write_def assms by simp

theorem resolve_reads_element_1_only_witness:
  "get table7 ''1'' = get table7_top ''1''
   \<and> get table7_top ''500'' = Inr (JArr [JStr ''Amarr''])
   \<and> resolve cat7 index7 table7_top = Inr jita"
proof -
  have g: "get table7 ''1'' = get table7_top ''1''" by code_simp
  have t: "get table7_top ''500'' = Inr (JArr [JStr ''Amarr''])" by code_simp
  show ?thesis
    using resolve_reads_element_1_only [OF g, of cat7 index7] resolve_jita g t by simp
qed

subsection \<open>The run after loading\<close>

text \<open>The function throws what the three passes throw and returns what they return.\<close>

lemma readonly_say: "readonly (say ms w) = readonly w"
  by (simp add: say_def)

lemma resolve_and_write_throws:
  assumes "resolve cat main doc = Inl e"
  shows "snd (resolve_and_write cfg cat main doc w) = Uncaught e
    \<and> docs (fst (resolve_and_write cfg cat main doc w)) = docs w"
  using assms
  by (auto simp: resolve_def resolve_and_write_def bind_def Let_def say_def split: sum.splits)

lemma resolve_and_write_returns:
  assumes "resolve cat main doc = Inr r" and "readonly w = {}"
  shows "snd (resolve_and_write cfg cat main doc w) = Returned r
    \<and> docs (fst (resolve_and_write cfg cat main doc w))
        (path_join (dataDir cfg) ''stellar_labels.json'') = Some (JSON_combined cfg r)"
  using assms
  by (auto simp: resolve_def resolve_and_write_def bind_def Let_def say_def writeFileSync_def
      split: sum.splits)

subsection \<open>Loading the catalogs\<close>

lemma say_say: "say b (say a w) = say (a @ b) w"
  by (simp add: say_def)

lemma docs_say: "docs (say ms w) = docs w"
  by (simp add: say_def)

lemma loadable_say: "loadable cfg (say ms w) p = loadable cfg w p"
  by (simp add: loadable_def readFileSync_def docs_say)

lemma loadJsonFile_ok:
  assumes "loadable cfg w p"
  shows "\<exists>v. loadJsonFile cfg p w = (say [Loading p] w, Some v)"
proof -
  have "loadable cfg (say [Loading p] w) p" using assms by (simp add: loadable_say)
  then show ?thesis
    by (auto simp: loadJsonFile_def loadable_def Let_def split: sum.splits)
qed

lemma loadJsonFile_fails:
  assumes "\<not> loadable cfg w p"
  shows "\<exists>e. loadJsonFile cfg p w = (say [Loading p, LoadError p e] w, None)"
proof -
  have "\<not> loadable cfg (say [Loading p] w) p" using assms by (simp add: loadable_say)
  then show ?thesis
    by (auto simp: loadJsonFile_def loadable_def Let_def say_say split: sum.splits)
qed

text \<open>
  C8.  When one of the three catalog files is missing or does not parse, the run ends with
  \<open>process.exit(1)\<close> at the first such file: the console holds the loading lines up to
  it and then the error naming it, no resolution step has logged anything, and no file has
  been written.
\<close>

theorem extractStellarLabels_aborts:
  assumes "\<not> list_all (loadable cfg w) (catalog_paths cfg)"
  shows "\<exists>loaded p rest e.
           catalog_paths cfg = loaded @ p # rest
           \<and> list_all (loadable cfg w) loaded \<and> \<not> loadable cfg w p
           \<and> extractStellarLabels cfg w
               = (say (map Loading loaded @ [Loading p, LoadError p e]) w, Exited 1)
           \<and> docs (fst (extractStellarLabels cfg w)) = docs w"
proof -
  let ?p1 = "path_join (dataDir cfg) ''starmapcache.json''"
  let ?p2 = "path_join (dataDir cfg) ''localization_fsd_main.json''"
  let ?p3 = "path_join (dataDir cfg) ''localization_fsd_en-us.json''"
  have paths: "catalog_paths cfg = [?p1, ?p2, ?p3]" by (simp add: catalog_paths_def)
  consider (one) "\<not> loadable cfg w ?p1"
    | (two) "loadable cfg w ?p1" "\<not> loadable cfg w ?p2"
    | (three) "loadable cfg w ?p1" "loadable cfg w ?p2" "\<not> loadable cfg w ?p3"
    using assms by (auto simp: paths)
  then show ?thesis
  proof cases
    case one
    from loadJsonFile_fails [OF one] obtain e where
      "loadJsonFile cfg ?p1 w = (say [Loading ?p1, LoadError ?p1 e] w, None)" by blast
    then have r: "extractStellarLabels cfg w
        = (say (map Loading [] @ [Loading ?p1, LoadError ?p1 e]) w, Exited 1)"
      by (simp add: extractStellarLabels_def)
    have "catalog_paths cfg = [] @ ?p1 # [?p2, ?p3]" by (simp add: paths)
    moreover have "list_all (loadable cfg w) []" by simp
    ultimately show ?thesis using one r by (metis docs_say fst_conv)
  next
    case two
    from loadJsonFile_ok [OF two(1)] obtain v1 where
      l1: "loadJsonFile cfg ?p1 w = (say [Loading ?p1] w, Some v1)" by blast
    have "\<not> loadable cfg (say [Loading ?p1] w) ?p2" using two(2) by (simp add: loadable_say)
    from loadJsonFile_fails [OF this] obtain e where
      l2: "loadJsonFile cfg ?p2 (say [Loading ?p1] w)
             = (say [Loading ?p1, Loading ?p2, LoadError ?p2 e] w, None)"
      by (auto simp: say_say)
    have r: "extractStellarLabels cfg w
        = (say (map Loading [?p1] @ [Loading ?p2, LoadError ?p2 e]) w, Exited 1)"
      by (simp add: extractStellarLabels_def l1 l2)
    have "catalog_paths cfg = [?p1] @ ?p2 # [?p3]" by (simp add: paths)
    moreover have "list_all (loadable cfg w) [?p1]" using two(1) by simp
    ultimately show ?thesis using two(2) r by (metis docs_say fst_conv)
  next
    case three
    from loadJsonFile_ok [OF three(1)] obtain v1 where
      l1: "loadJsonFile cfg ?p1 w = (say [Loading ?p1] w, Some v1)" by blast
    have "loadable cfg (say [Loading ?p1] w) ?p2" using three(2) by (simp add: loadable_say)
    from loadJsonFile_ok [OF this] obtain v2 where
      l2: "loadJsonFile cfg ?p2 (say [Loading ?p1] w)
             = (say [Loading ?p1, Loading ?p2] w, Some v2)"
      by (auto simp: say_say)
    have "\<not> loadable cfg (say [Loading ?p1, Loading ?p2] w) ?p3"
      using three(3) by (simp add: loadable_say)
    from loadJsonFile_fails [OF this] obtain e where
      l3: "loadJsonFile cfg ?p3 (say [Loading ?p1, Loading ?p2] w)
             = (say [Loading ?p1, Loading ?p2, Loading ?p3, LoadError ?p3 e] w, None)"
      by (auto simp: say_say)
    have r: "extractStellarLabels cfg w
        = (say (map Loading [?p1, ?p2] @ [Loading ?p3, LoadError ?p3 e]) w, Exited 1)"
      by (simp add: extractStellarLabels_def l1 l2 l3)
    have "catalog_paths cfg = [?p1, ?p2] @ ?p3 # []" by (simp add: paths)
    moreover have "list_all (loadable cfg w) [?p1, ?p2]" using three(1,2) by simp
    ultimately show ?thesis using three(3) r by (metis docs_say fst_conv)
  qed
qed

theorem extractStellarLabels_aborts_witness:
  "\<not> list_all (loadable cfg0 store0) (catalog_paths cfg0)
   \<and> extractStellarLabels cfg0 store0
       = (store0\<lparr>out := [Loading ''/d/starmapcache.json'',
                          Loading ''/d/localization_fsd_main.json'',
                          LoadError ''/d/localization_fsd_main.json''
                            (ENOENT ''/d/localization_fsd_main.json'')]\<rparr>, Exited 1)
   \<and> (\<exists>loaded p rest e.
         catalog_paths cfg0 = loaded @ p # rest
         \<and> list_all (loadable cfg0 store0) loaded \<and> \<not> loadable cfg0 store0 p
         \<and> extractStellarLabels cfg0 store0
             = (say (map Loading loaded @ [Loading p, LoadError p e]) store0, Exited 1)
         \<and> docs (fst (extractStellarLabels cfg0 store0)) = docs store0)"
proof -
  have a: "\<not> list_all (loadable cfg0 store0) (catalog_paths cfg0)"
    by (simp add: loadable_def catalog_paths_def readFileSync_def cfg0_def store0_def path_join_def)
  have b: "extractStellarLabels cfg0 store0
       = (store0\<lparr>out := [Loading ''/d/starmapcache.json'',
                          Loading ''/d/localization_fsd_main.json'',
                          LoadError ''/d/localization_fsd_main.json''
                            (ENOENT ''/d/localization_fsd_main.json'')]\<rparr>, Exited 1)"
    by (simp add: extractStellarLabels_def loadJsonFile_def readFileSync_def say_def cfg0_def
        store0_def path_join_def Let_def)
  show ?thesis using extractStellarLabels_aborts [OF a] a b by blast
qed

end
